theory Spec2Isabelle
  imports Complex_Main "HOL-Library.Multiset"
begin

section \<open>Exceptions\<close>

text \<open>
  The Python exceptions the modelled code can raise. \<open>FrameworkError\<close> stands for
  whatever the tensor framework raises inside a graph convolution, a loss or an
  optimiser step (shape mismatches, numeric failures).
\<close>

datatype error =
    ValueError
  | KeyError
  | IndexError
  | FileNotFoundError
  | FileExistsError
  | IsADirectoryError
  | FrameworkError string

section \<open>DynamicEvaluator (src/evaluation/dynamic_graphs/dynamic_evaluator.py)\<close>

text \<open>
  The evaluator's fields that \<open>evaluate\<close> touches. \<open>dyn_graph\<close> is the Python dict
  \<open>data.dynamic_graph\<close>: an association list in the dict's iteration (insertion) order.
  \<open>explainer_iteration\<close> is the attribute \<open>self._explainer.iteration\<close>
  (\<open>None\<close> while it has never been assigned), \<open>evaluator_data\<close> is \<open>self._data\<close>.
\<close>

record 'd evaluator =
  dyn_graph :: "(int \<times> 'd) list"
  evaluator_data :: 'd
  explainer_iteration :: "int option"

text \<open>
  What one call of \<open>evaluate\<close> does that an observer can see: the line it prints and
  the calls of the inherited \<open>Evaluator.evaluate\<close>, each with the evaluator as it was
  at the call.
\<close>

datatype 'd evaluator_event =
    Print_iteration int
  | Super_evaluate "'d evaluator"

fun is_Super_evaluate :: "'d evaluator_event \<Rightarrow> bool" where
  "is_Super_evaluate (Super_evaluate _) = True"
| "is_Super_evaluate (Print_iteration _) = False"

text \<open>\<open>min(iterable)\<close>: a left fold with \<open>min\<close>; \<open>ValueError\<close> on an empty iterable.\<close>

definition py_min :: "int list \<Rightarrow> error + int" where
  "py_min ks = (case ks of [] \<Rightarrow> Inl ValueError | k # rest \<Rightarrow> Inr (fold min rest k))"

text \<open>\<open>d[k]\<close> on a dict: \<open>KeyError\<close> when the key is absent.\<close>

definition dict_get :: "('k \<times> 'v) list \<Rightarrow> 'k \<Rightarrow> error + 'v" where
  "dict_get d k = (case map_of d k of None \<Rightarrow> Inl KeyError | Some v \<Rightarrow> Inr v)"

text \<open>
  The \<open>for time in self.dyn_graph.keys()\<close> loop. The inherited single-snapshot protocol
  \<open>super().evaluate()\<close> is not part of the sources: it is the parameter \<open>super_evaluate\<close>,
  which may change the evaluator or raise. The body ends in an unconditional
  \<open>break\<close>, so the second equation makes no recursive call on the remaining keys.
\<close>

fun evaluate_loop ::
  "('d evaluator \<Rightarrow> error + 'd evaluator) \<Rightarrow> int \<Rightarrow> int list \<Rightarrow> 'd evaluator
    \<Rightarrow> 'd evaluator_event list \<times> (error + 'd evaluator)" where
  "evaluate_loop super_evaluate begin_time [] s = ([], Inr s)"
| "evaluate_loop super_evaluate begin_time (time # remaining) s =
     (let s1 = s\<lparr>explainer_iteration := Some (time - begin_time)\<rparr> in
      case dict_get (dyn_graph s1) time of
        Inl e \<Rightarrow> ([Print_iteration (time - begin_time)], Inl e)
      | Inr snapshot \<Rightarrow>
          (let s2 = s1\<lparr>evaluator_data := snapshot\<rparr> in
           ([Print_iteration (time - begin_time), Super_evaluate s2], super_evaluate s2)))"

definition evaluate ::
  "('d evaluator \<Rightarrow> error + 'd evaluator) \<Rightarrow> 'd evaluator
    \<Rightarrow> 'd evaluator_event list \<times> (error + 'd evaluator)" where
  "evaluate super_evaluate s =
     (case py_min (map fst (dyn_graph s)) of
        Inl e \<Rightarrow> ([], Inl e)
      | Inr begin_time \<Rightarrow> evaluate_loop super_evaluate begin_time (map fst (dyn_graph s)) s)"

section \<open>AdaptiveGCE: data transformation (src/explainer/dynamic_graphs/ada_gce.py)\<close>

text \<open>
  What the code reads of the collaborators \<open>Dataset\<close> and graph instance, which are not
  part of the sources: \<open>to_numpy_array()\<close> (the dense weighted adjacency matrix, a list of
  rows), \<open>features\<close>, \<open>graph_label\<close>; \<open>instances\<close>, \<open>name\<close>, \<open>get_classes()\<close> and
  \<open>get_split_indices()\<close> (fold id to the positions of the train and test instances).
  Numbers are idealised as reals.
\<close>

type_synonym tensor = "real list list"

record graph_instance =
  to_numpy_array :: "real list list"
  features :: tensor
  graph_label :: int

record split =
  train :: "nat list"
  test :: "nat list"

record dataset =
  instances :: "graph_instance list"
  dataset_name :: string
  get_classes :: "int list"
  get_split_indices :: "(int \<times> split) list"

text \<open>A \<open>torch_geometric.data.Data\<close> sample; \<open>edge_index\<close> is the 2 x k tensor, as its two rows.\<close>

record Data =
  data_x :: tensor
  data_y :: int
  edge_index :: "nat list \<times> nat list"
  edge_attr :: "real list"

text \<open>
  \<open>np.array([...])\<close> over the instances' arrays stacks them into one array, which needs
  them all of one shape; otherwise building the tensor raises.
\<close>

definition shape :: "'a list list \<Rightarrow> nat \<times> nat list" where
  "shape m = (length m, map length m)"

definition np_array :: "'a list list list \<Rightarrow> error + 'a list list list" where
  "np_array ms =
     (case ms of
        [] \<Rightarrow> Inr []
      | m # rest \<Rightarrow> if list_all (\<lambda>m'. shape m' = shape m) rest then Inr ms else Inl ValueError)"

text \<open>\<open>t[indices]\<close> with a list of positions: \<open>IndexError\<close> when one is out of range.\<close>

definition take_indices :: "'a list \<Rightarrow> nat list \<Rightarrow> error + 'a list" where
  "take_indices xs indices =
     (if list_all (\<lambda>i. i < length xs) indices then Inr (map (\<lambda>i. xs ! i) indices)
      else Inl IndexError)"

text \<open>
  \<open>torch.nonzero(m)\<close>: the positions of the non-zero entries, in row-major order, one
  (row, column) pair per entry.
\<close>

definition nonzero :: "'a::zero list list \<Rightarrow> (nat \<times> nat) list" where
  "nonzero m =
     concat (map (\<lambda>r. map (\<lambda>c. (r, c)) (filter (\<lambda>c. m ! r ! c \<noteq> 0) [0..<length (m ! r)]))
               [0..<length m])"

text \<open>
  \<open>w[a[:,0], a[:,1]]\<close>: the entries of \<open>w\<close> at the listed positions. The positions come
  from \<open>nonzero\<close> of the same matrix, so they are in range (lemma \<open>nonzero_in_range\<close>).
\<close>

definition index_pairs :: "'a list list \<Rightarrow> (nat \<times> nat) list \<Rightarrow> 'a list" where
  "index_pairs w a = map (\<lambda>(r, c). w ! r ! c) a"

text \<open>\<open>a.T\<close> of the k x 2 position tensor: the row of row indices and the row of column indices.\<close>

definition transpose_pairs :: "(nat \<times> nat) list \<Rightarrow> nat list \<times> nat list" where
  "transpose_pairs a = (map fst a, map snd a)"

text \<open>The body of the loop over the train instances builds this sample.\<close>

definition make_Data :: "tensor \<Rightarrow> real list list \<Rightarrow> int \<Rightarrow> Data" where
  "make_Data xi adji yi =
     (let w = adji;
          a = nonzero adji;
          w = index_pairs w a
      in \<lparr>data_x = xi, data_y = yi, edge_index = transpose_pairs a, edge_attr = w\<rparr>)"

text \<open>
  \<open>{cls: [] for cls in classes}\<close>: a dict keeps one entry per distinct key, at the place
  of the key's first occurrence.
\<close>

definition dict_keys :: "'k list \<Rightarrow> 'k list" where
  "dict_keys ks = rev (remdups (rev ks))"

text \<open>\<open>d[k].append(v)\<close>: \<open>KeyError\<close> when the key is absent.\<close>

definition dict_append :: "('k \<times> 'v list) list \<Rightarrow> 'k \<Rightarrow> 'v \<Rightarrow> error + ('k \<times> 'v list) list" where
  "dict_append d k v =
     (if k \<in> fst ` set d then Inr (map (\<lambda>(k', vs). if k' = k then (k', vs @ [v]) else (k', vs)) d)
      else Inl KeyError)"

text \<open>The loop \<open>for i in range(len(y))\<close>, over the selected (x[i], adj[i], y[i]).\<close>

fun bucket_loop ::
  "(tensor \<times> real list list \<times> int) list \<Rightarrow> (int \<times> Data list) list
    \<Rightarrow> error + (int \<times> Data list) list" where
  "bucket_loop [] data_dict_cls = Inr data_dict_cls"
| "bucket_loop ((xi, adji, yi) # remaining) data_dict_cls =
     (case dict_append data_dict_cls yi (make_Data xi adji yi) of
        Inl e \<Rightarrow> Inl e
      | Inr d \<Rightarrow> bucket_loop remaining d)"

text \<open>
  The first part of \<open>transform_data\<close>, up to the dict \<open>data_dict_cls\<close> of the per-class
  sample lists. \<open>fold_id\<close> is the explainer's own \<open>self.fold_id\<close>.
\<close>

definition data_dict_cls :: "int \<Rightarrow> dataset \<Rightarrow> error + (int \<times> Data list) list" where
  "data_dict_cls fold_id ds =
     (case np_array (map to_numpy_array (instances ds)) of Inl e \<Rightarrow> Inl e | Inr adj \<Rightarrow>
      case np_array (map features (instances ds)) of Inl e \<Rightarrow> Inl e | Inr x \<Rightarrow>
      let y = map graph_label (instances ds) in
      case dict_get (get_split_indices ds) fold_id of Inl e \<Rightarrow> Inl e | Inr sp \<Rightarrow>
      case take_indices x (train sp) of Inl e \<Rightarrow> Inl e | Inr x' \<Rightarrow>
      case take_indices adj (train sp) of Inl e \<Rightarrow> Inl e | Inr adj' \<Rightarrow>
      case take_indices y (train sp) of Inl e \<Rightarrow> Inl e | Inr y' \<Rightarrow>
      bucket_loop (zip x' (zip adj' y')) (map (\<lambda>cls. (cls, [])) (dict_keys (get_classes ds))))"

text \<open>
  A \<open>DataLoader\<close> over the samples of one class. \<open>TorchGeometricDataset\<close> is not part of
  the sources; it is taken as the wrapper of the sample list that the loader iterates.
\<close>

record DataLoader =
  loader_dataset :: "Data list"
  loader_batch_size :: nat
  loader_shuffle :: bool

definition transform_data :: "int \<Rightarrow> dataset \<Rightarrow> error + DataLoader list" where
  "transform_data fold_id ds =
     (case data_dict_cls fold_id ds of
        Inl e \<Rightarrow> Inl e
      | Inr d \<Rightarrow> Inr (map (\<lambda>(cls, samples).
                  \<lparr>loader_dataset = samples, loader_batch_size = 1, loader_shuffle = True\<rparr>) d))"

text \<open>
  The reconstruction the sparse round trip speaks of (not in the sources): the edge
  weights written back, column by column of \<open>edge_index\<close>, into a matrix of zeros of the
  shape of the original.
\<close>

definition zeros_like :: "'a::zero list list \<Rightarrow> 'a list list" where
  "zeros_like m = map (map (\<lambda>_. 0)) m"

definition scatter_dense :: "'a list list \<Rightarrow> nat list \<times> nat list \<Rightarrow> 'a list \<Rightarrow> 'a list list" where
  "scatter_dense z ei ws =
     fold (\<lambda>((r, c), w) M. M[r := (M ! r)[c := w]]) (zip (zip (fst ei) (snd ei)) ws) z"


text \<open>One write of the reconstruction: the entry of \<open>m\<close> at a position, put into \<open>M\<close>.\<close>

definition write_entry :: "'a list list \<Rightarrow> nat \<times> nat \<Rightarrow> 'a list list \<Rightarrow> 'a list list" where
  "write_entry m p M = M[fst p := (M ! fst p)[snd p := m ! fst p ! snd p]]"

text \<open>A small dataset: three graphs on two nodes, fold 0 trains on the first and the third.\<close>

definition example_dataset :: dataset where
  "example_dataset =
     \<lparr>instances =
        [\<lparr>to_numpy_array = [[0, 2], [3, 0]], features = [[1], [1]], graph_label = 1\<rparr>,
         \<lparr>to_numpy_array = [[0, 0], [0, 0]], features = [[1], [2]], graph_label = 0\<rparr>,
         \<lparr>to_numpy_array = [[0, 5], [0, 0]], features = [[4], [1]], graph_label = 0\<rparr>],
      dataset_name = ''toy'',
      get_classes = [0, 1],
      get_split_indices = [(0, \<lparr>train = [0, 2], test = [1]\<rparr>)]\<rparr>"


section \<open>GCNEncoder and the autoencoder around it\<close>

text \<open>
  \<open>GCNConv\<close> belongs to the graph library, not to the sources. A layer is its configured
  channel counts and its parameters (an opaque type); what a layer computes is a
  parameter of the model, the capability \<open>gcn\<close>, which maps node features, edge index and
  edge weights to node embeddings or raises.
\<close>

record 'p GCNConv =
  in_channels :: nat
  out_channels :: nat
  conv_params :: 'p

type_synonym 'p gcn_forward =
  "'p GCNConv \<Rightarrow> tensor \<Rightarrow> nat list \<times> nat list \<Rightarrow> real list \<Rightarrow> error + tensor"

text \<open>
  An object has one attribute of each name: \<open>training\<close>, assigned in \<open>__init__\<close> after
  \<open>super().__init__()\<close>, is the attribute \<open>training\<close> that every \<open>nn.Module\<close> carries.
\<close>

record 'p GCNEncoder =
  conv1 :: "'p GCNConv"
  conv2 :: "'p GCNConv"
  conv3 :: "'p GCNConv"
  training :: bool

text \<open>\<open>GCNEncoder.__init__\<close>; \<open>p1\<close>, \<open>p2\<close>, \<open>p3\<close> are the initial parameters of the layers.\<close>

definition GCNEncoder_init :: "nat \<Rightarrow> nat \<Rightarrow> 'p \<Rightarrow> 'p \<Rightarrow> 'p \<Rightarrow> 'p GCNEncoder" where
  "GCNEncoder_init in_ch out_ch p1 p2 p3 =
     \<lparr>conv1 = \<lparr>in_channels = in_ch, out_channels = out_ch, conv_params = p1\<rparr>,
      conv2 = \<lparr>in_channels = out_ch, out_channels = out_ch, conv_params = p2\<rparr>,
      conv3 = \<lparr>in_channels = out_ch, out_channels = in_ch, conv_params = p3\<rparr>,
      training = False\<rparr>"

definition set_training :: "'p GCNEncoder \<Rightarrow> bool \<Rightarrow> 'p GCNEncoder" where
  "set_training enc b = enc\<lparr>training := b\<rparr>"

text \<open>\<open>F.leaky_relu(x, negative_slope)\<close>, entry by entry.\<close>

definition leaky_relu :: "real \<Rightarrow> tensor \<Rightarrow> tensor" where
  "leaky_relu negative_slope t = map (map (\<lambda>v. if 0 \<le> v then v else negative_slope * v)) t"

text \<open>
  \<open>F.dropout(x, p, training)\<close>: the identity unless \<open>training\<close>; otherwise every entry is
  zeroed or scaled by 1 / (1 - p), as the random draw \<open>keep\<close> says for its position.
\<close>

definition dropout :: "(nat \<Rightarrow> nat \<Rightarrow> bool) \<Rightarrow> real \<Rightarrow> bool \<Rightarrow> tensor \<Rightarrow> tensor" where
  "dropout keep p is_training t =
     (if is_training
      then map (\<lambda>i. map (\<lambda>j. if keep i j then t ! i ! j / (1 - p) else 0) [0..<length (t ! i)])
             [0..<length t]
      else t)"

text \<open>
  \<open>GCNEncoder.forward\<close>, stage by stage (its two debugging prints left out). \<open>keep1\<close> and
  \<open>keep2\<close> are the random draws of the two dropout calls.
\<close>

definition forward_stage1 ::
  "'p gcn_forward \<Rightarrow> (nat \<Rightarrow> nat \<Rightarrow> bool) \<Rightarrow> 'p GCNEncoder \<Rightarrow> tensor \<Rightarrow> nat list \<times> nat list
    \<Rightarrow> real list \<Rightarrow> error + tensor" where
  "forward_stage1 gcn keep1 enc x ei ew =
     (case gcn (conv1 enc) x ei ew of
        Inl e \<Rightarrow> Inl e
      | Inr x1 \<Rightarrow> Inr (dropout keep1 0.2 (training enc) (leaky_relu 0.2 x1)))"

definition forward_stage2 ::
  "'p gcn_forward \<Rightarrow> (nat \<Rightarrow> nat \<Rightarrow> bool) \<Rightarrow> 'p GCNEncoder \<Rightarrow> tensor \<Rightarrow> nat list \<times> nat list
    \<Rightarrow> real list \<Rightarrow> error + tensor" where
  "forward_stage2 gcn keep2 enc x ei ew =
     (case gcn (conv2 enc) x ei ew of
        Inl e \<Rightarrow> Inl e
      | Inr x2 \<Rightarrow> Inr (dropout keep2 0.2 (training enc) (leaky_relu 0.2 x2)))"

definition forward_stage3 ::
  "'p gcn_forward \<Rightarrow> 'p GCNEncoder \<Rightarrow> tensor \<Rightarrow> nat list \<times> nat list \<Rightarrow> real list
    \<Rightarrow> error + tensor" where
  "forward_stage3 gcn enc x ei ew =
     (case gcn (conv3 enc) x ei ew of
        Inl e \<Rightarrow> Inl e
      | Inr x3 \<Rightarrow> Inr (map (map tanh) x3))"

definition forward ::
  "'p gcn_forward \<Rightarrow> (nat \<Rightarrow> nat \<Rightarrow> bool) \<Rightarrow> (nat \<Rightarrow> nat \<Rightarrow> bool) \<Rightarrow> 'p GCNEncoder \<Rightarrow> tensor
    \<Rightarrow> nat list \<times> nat list \<Rightarrow> real list \<Rightarrow> error + tensor" where
  "forward gcn keep1 keep2 enc x ei ew =
     (case forward_stage1 gcn keep1 enc x ei ew of
        Inl e \<Rightarrow> Inl e
      | Inr x1 \<Rightarrow>
          (case forward_stage2 gcn keep2 enc x1 ei ew of
             Inl e \<Rightarrow> Inl e
           | Inr x2 \<Rightarrow> forward_stage3 gcn enc x2 ei ew))"

text \<open>
  The graph autoencoder \<open>GAE(encoder=...)\<close> of the library: a module whose child is the
  encoder (its inner-product decoder has no parameters). As every module it is created
  in training mode; creating it leaves the encoder as it is.
\<close>

record 'p GAE =
  encoder :: "'p GCNEncoder"
  gae_training :: bool

definition GAE_init :: "'p GCNEncoder \<Rightarrow> 'p GAE" where
  "GAE_init enc = \<lparr>encoder = enc, gae_training = True\<rparr>"

text \<open>
  \<open>nn.Module.train(mode)\<close> of the framework assigns \<open>mode\<close> to the attribute \<open>training\<close> of
  the module and of each of its children. (The layers below the encoder get it too; no
  code of theirs reads it.)
\<close>

definition Module_train :: "bool \<Rightarrow> 'p GAE \<Rightarrow> 'p GAE" where
  "Module_train mode ae = ae\<lparr>gae_training := mode, encoder := (encoder ae)\<lparr>training := mode\<rparr>\<rparr>"

text \<open>\<open>GAE.encode(*args)\<close> runs the encoder on its arguments.\<close>

definition GAE_encode ::
  "'p gcn_forward \<Rightarrow> (nat \<Rightarrow> nat \<Rightarrow> bool) \<Rightarrow> (nat \<Rightarrow> nat \<Rightarrow> bool) \<Rightarrow> 'p GAE \<Rightarrow> tensor
    \<Rightarrow> nat list \<times> nat list \<Rightarrow> real list \<Rightarrow> error + tensor" where
  "GAE_encode gcn keep1 keep2 ae x ei ew = forward gcn keep1 keep2 (encoder ae) x ei ew"

text \<open>\<open>state_dict()\<close> and \<open>load_state_dict\<close>: the parameters of the three layers.\<close>

definition state_dict :: "'p GAE \<Rightarrow> 'p \<times> 'p \<times> 'p" where
  "state_dict ae =
     (conv_params (conv1 (encoder ae)), conv_params (conv2 (encoder ae)),
      conv_params (conv3 (encoder ae)))"

definition load_state_dict :: "'p GAE \<Rightarrow> 'p \<times> 'p \<times> 'p \<Rightarrow> 'p GAE" where
  "load_state_dict ae sd =
     (case sd of (p1, p2, p3) \<Rightarrow>
        ae\<lparr>encoder := (encoder ae)
               \<lparr>conv1 := (conv1 (encoder ae))\<lparr>conv_params := p1\<rparr>,
                conv2 := (conv2 (encoder ae))\<lparr>conv_params := p2\<rparr>,
                conv3 := (conv3 (encoder ae))\<lparr>conv_params := p3\<rparr>\<rparr>\<rparr>)"

text \<open>An N x C tensor: N rows of C entries each.\<close>

definition has_shape :: "nat \<Rightarrow> nat \<Rightarrow> tensor \<Rightarrow> bool" where
  "has_shape n c t = (length t = n \<and> list_all (\<lambda>row. length row = c) t)"

text \<open>A graph on \<open>n\<close> nodes: every edge joins two of the nodes and has its weight.\<close>

definition valid_edges :: "nat \<Rightarrow> nat list \<times> nat list \<Rightarrow> real list \<Rightarrow> bool" where
  "valid_edges n ei ew =
     (length (fst ei) = length (snd ei) \<and> length ew = length (fst ei) \<and>
      list_all (\<lambda>v. v < n) (fst ei) \<and> list_all (\<lambda>v. v < n) (snd ei))"

text \<open>
  The contract of a graph convolution: on a graph of N nodes with \<open>in_channels\<close>
  features per node it returns N rows of \<open>out_channels\<close> features.
\<close>

definition gcn_contract :: "'p gcn_forward \<Rightarrow> bool" where
  "gcn_contract gcn =
     (\<forall>cv x ei ew. has_shape (length x) (in_channels cv) x \<and> valid_edges (length x) ei ew \<longrightarrow>
        (\<exists>y. gcn cv x ei ew = Inr y \<and> has_shape (length x) (out_channels cv) y))"

text \<open>A layer for examples: it ignores the graph and fills the output with its parameter.\<close>

definition constant_gcn :: "real gcn_forward" where
  "constant_gcn cv x ei ew = Inr (map (\<lambda>_. replicate (out_channels cv) (conv_params cv)) x)"

text \<open>A layer for examples: it returns the node features as they are.\<close>

definition identity_gcn :: "real gcn_forward" where
  "identity_gcn cv x ei ew = Inr x"

section \<open>Paths and the file system\<close>

text \<open>\<open>str(n)\<close> of an integer, as the f-strings format \<open>fold_id\<close> and \<open>cls\<close>.\<close>

definition digit_char :: "nat \<Rightarrow> char" where
  "digit_char d = ''0123456789'' ! d"

fun str_nat :: "nat \<Rightarrow> string" where
  "str_nat n = (if n < 10 then [digit_char n] else str_nat (n div 10) @ [digit_char (n mod 10)])"

declare str_nat.simps [simp del]

definition str_int :: "int \<Rightarrow> string" where
  "str_int i = (if i < 0 then CHR ''-'' # str_nat (nat (- i)) else str_nat (nat i))"

text \<open>\<open>os.path.join(a, b)\<close> and \<open>os.path.dirname(p)\<close> of \<open>posixpath\<close>.\<close>

definition path_join :: "string \<Rightarrow> string \<Rightarrow> string" where
  "path_join a b =
     (if b \<noteq> [] \<and> hd b = CHR ''/'' then b
      else if a = [] \<or> last a = CHR ''/'' then a @ b
      else a @ ''/'' @ b)"

definition dirname :: "string \<Rightarrow> string" where
  "dirname p =
     (let head = rev (dropWhile (\<lambda>c. c \<noteq> CHR ''/'') (rev p)) in
      if head \<noteq> [] \<and> \<not> list_all (\<lambda>c. c = CHR ''/'') head
      then rev (dropWhile (\<lambda>c. c = CHR ''/'') (rev head))
      else head)"

section \<open>AdaptiveGCE: fitting and explaining\<close>

text \<open>
  The explainer's attributes that the modelled methods use. \<open>class_name\<close> is what the
  f-string makes of \<open>self.__class__.name\<close>; \<open>explainer_name\<close> is \<open>self.name\<close>; \<open>fitted\<close> is
  \<open>self._fitted\<close>. \<open>'o\<close> is the state of an optimiser.
\<close>

record ('p, 'o) AdaptiveGCE =
  class_name :: string
  explainer_store_path :: string
  explainer_name :: string
  num_classes :: nat
  fold_id :: int
  epochs_ae :: nat
  autoencoders :: "'p GAE list"
  optimisers :: "'o list"
  fitted :: bool

text \<open>
  What a call leaves for an observer: the calls of \<open>fit\<close> and \<open>load_explainers\<close> that were
  made, and the line \<open>__fit\<close> prints after each epoch (class, epoch, the losses whose mean
  it shows).
\<close>

datatype event =
    Call_fit string int
  | Call_load_explainers
  | Epoch_log nat nat "real list"

fun is_Epoch_log :: "event \<Rightarrow> bool" where
  "is_Epoch_log (Epoch_log _ _ _) = True"
| "is_Epoch_log _ = False"


text \<open>
  The state the methods work on: the explainer object, the directories and the
  checkpoint files of the file system (a file holds a saved \<open>state_dict\<close>), and the events
  so far. A raised exception leaves the state as it was at the raise, so every method
  returns the state together with \<open>Some\<close> exception or \<open>None\<close>.
\<close>

record ('p, 'o) world =
  explainer :: "('p, 'o) AdaptiveGCE"
  dirs :: "string list"
  files :: "(string \<times> ('p \<times> 'p \<times> 'p)) list"
  trace :: "event list"

definition os_path_exists :: "('p, 'o) world \<Rightarrow> string \<Rightarrow> bool" where
  "os_path_exists w p = (p \<in> set (dirs w) \<or> p \<in> fst ` set (files w))"

text \<open>A directory that is there: one of \<open>dirs\<close>, the current directory or the root.\<close>

definition is_dir :: "('p, 'o) world \<Rightarrow> string \<Rightarrow> bool" where
  "is_dir w d = (list_all (\<lambda>c. c = CHR ''/'') d \<or> d \<in> set (dirs w))"

definition os_mkdir :: "('p, 'o) world \<Rightarrow> string \<Rightarrow> error + ('p, 'o) world" where
  "os_mkdir w p =
     (if os_path_exists w p then Inl FileExistsError
      else if \<not> is_dir w (dirname p) then Inl FileNotFoundError
      else Inr (w\<lparr>dirs := p # dirs w\<rparr>))"

definition torch_save ::
  "('p, 'o) world \<Rightarrow> 'p \<times> 'p \<times> 'p \<Rightarrow> string \<Rightarrow> error + ('p, 'o) world" where
  "torch_save w sd p =
     (if p \<in> set (dirs w) then Inl IsADirectoryError
      else if \<not> is_dir w (dirname p) then Inl FileNotFoundError
      else Inr (w\<lparr>files := (p, sd) # filter (\<lambda>(q, _). q \<noteq> p) (files w)\<rparr>))"

definition checkpoint_path :: "('p, 'o) AdaptiveGCE \<Rightarrow> nat \<Rightarrow> string" where
  "checkpoint_path ex cls =
     path_join (path_join (explainer_store_path ex) (explainer_name ex))
       (''autoencoder_'' @ str_nat cls)"

definition save_autoencoder ::
  "('p, 'o) world \<Rightarrow> 'p GAE \<Rightarrow> nat \<Rightarrow> error + ('p, 'o) world" where
  "save_autoencoder w model cls =
     torch_save w (state_dict model) (checkpoint_path (explainer w) cls)"

text \<open>
  Modelled from the spec: \<open>load_explainers\<close> is called by \<open>fit\<close> and defined nowhere in the
  sources. The spec has it load the ensemble weights from the checkpoint directory, one
  file per class index, and fail when an expected per-class weight file is missing.
\<close>

fun load_loop :: "nat list \<Rightarrow> ('p, 'o) world \<Rightarrow> error option \<times> ('p, 'o) world" where
  "load_loop [] w = (None, w)"
| "load_loop (cls # remaining) w =
     (case map_of (files w) (checkpoint_path (explainer w) cls) of
        None \<Rightarrow> (Some FileNotFoundError, w)
      | Some sd \<Rightarrow>
          load_loop remaining
            (w\<lparr>explainer := (explainer w)
                 \<lparr>autoencoders := (autoencoders (explainer w))
                    [cls := load_state_dict (autoencoders (explainer w) ! cls) sd]\<rparr>\<rparr>))"

definition load_explainers :: "('p, 'o) world \<Rightarrow> error option \<times> ('p, 'o) world" where
  "load_explainers w =
     load_loop [0..<length (autoencoders (explainer w))]
       (w\<lparr>trace := trace w @ [Call_load_explainers]\<rparr>)"

text \<open>
  What the training loop takes from the tensor framework, as parameters: the graph
  convolution; the random draws of the two dropout calls (per class, epoch, batch and
  call); \<open>recon_loss\<close>; \<open>loss.backward()\<close> with \<open>optimiser.step()\<close>, which give the new
  optimiser state and layer parameters or raise; and the order in which a shuffling
  loader of n samples yields their positions (per class and epoch).
\<close>

record ('p, 'o) framework =
  fw_gcn :: "'p gcn_forward"
  fw_bernoulli :: "nat \<Rightarrow> nat \<Rightarrow> nat \<Rightarrow> nat \<Rightarrow> nat \<Rightarrow> nat \<Rightarrow> bool"
  fw_recon_loss :: "tensor \<Rightarrow> nat list \<times> nat list \<Rightarrow> error + real"
  fw_backward_step ::
    "'o \<Rightarrow> 'p GAE \<Rightarrow> tensor \<Rightarrow> real \<Rightarrow> nat list \<times> nat list \<Rightarrow> real list
      \<Rightarrow> error + ('o \<times> ('p \<times> 'p \<times> 'p))"
  fw_sampler :: "nat \<Rightarrow> nat \<Rightarrow> nat \<Rightarrow> nat list"

text \<open>
  The body of \<open>for item in data_loader\<close> for batch number \<open>b\<close>. The node features given
  to \<open>encode\<close> are \<open>torch.FloatTensor([])\<close>, the empty tensor. (\<open>squeeze\<close> and \<open>to(device)\<close>
  change the layout and the place of a tensor, not its entries.)
\<close>

definition train_batch ::
  "('p, 'o) framework \<Rightarrow> nat \<Rightarrow> nat \<Rightarrow> nat \<Rightarrow> Data \<Rightarrow> 'p GAE \<times> 'o
    \<Rightarrow> error + ('p GAE \<times> 'o) \<times> real" where
  "train_batch fw cls epoch b item st =
     (case st of (autoencoder, optimiser) \<Rightarrow>
      let ei = edge_index item; ea = edge_attr item in
      case GAE_encode (fw_gcn fw) (fw_bernoulli fw cls epoch b 1) (fw_bernoulli fw cls epoch b 2)
             autoencoder [] ei ea of
        Inl e \<Rightarrow> Inl e
      | Inr z \<Rightarrow>
         (case fw_recon_loss fw z ei of
            Inl e \<Rightarrow> Inl e
          | Inr loss \<Rightarrow>
             (case fw_backward_step fw optimiser autoencoder z loss ei ea of
                Inl e \<Rightarrow> Inl e
              | Inr (optimiser', sd) \<Rightarrow> Inr ((load_state_dict autoencoder sd, optimiser'), loss))))"

fun batch_loop ::
  "('p, 'o) framework \<Rightarrow> nat \<Rightarrow> nat \<Rightarrow> nat \<Rightarrow> Data list \<Rightarrow> 'p GAE \<times> 'o \<Rightarrow> real list
    \<Rightarrow> error option \<times> ('p GAE \<times> 'o) \<times> real list" where
  "batch_loop fw cls epoch b [] st losses = (None, st, losses)"
| "batch_loop fw cls epoch b (item # remaining) st losses =
     (case train_batch fw cls epoch b item st of
        Inl e \<Rightarrow> (Some e, st, losses)
      | Inr (st', loss) \<Rightarrow> batch_loop fw cls epoch (Suc b) remaining st' (losses @ [loss]))"

text \<open>The samples of a loader in the order its sampler yields them.\<close>

definition loader_items :: "('p, 'o) framework \<Rightarrow> nat \<Rightarrow> nat \<Rightarrow> DataLoader \<Rightarrow> Data list" where
  "loader_items fw cls epoch dl =
     map (\<lambda>j. loader_dataset dl ! j)
       (filter (\<lambda>j. j < length (loader_dataset dl))
          (fw_sampler fw cls epoch (length (loader_dataset dl))))"

text \<open>The loop \<open>for epoch in range(self.epochs_ae)\<close>, with the line printed after each epoch.\<close>

fun epoch_loop ::
  "('p, 'o) framework \<Rightarrow> nat \<Rightarrow> DataLoader \<Rightarrow> nat list \<Rightarrow> 'p GAE \<times> 'o
    \<Rightarrow> error option \<times> ('p GAE \<times> 'o) \<times> event list" where
  "epoch_loop fw cls dl [] st = (None, st, [])"
| "epoch_loop fw cls dl (epoch # remaining) st =
     (case batch_loop fw cls epoch 0 (loader_items fw cls epoch dl) st [] of
        (Some e, st', losses) \<Rightarrow> (Some e, st', [])
      | (None, st', losses) \<Rightarrow>
          (case epoch_loop fw cls dl remaining st' of
             (r, st'', evs) \<Rightarrow> (r, st'', Epoch_log cls epoch losses # evs)))"

text \<open>
  The body of \<open>for cls, data_loader in enumerate(data_loaders)\<close> up to the save: the
  class's autoencoder is put into training mode and trained for \<open>epochs\<close> epochs.
\<close>

definition train_class ::
  "('p, 'o) framework \<Rightarrow> nat \<Rightarrow> nat \<Rightarrow> DataLoader \<Rightarrow> 'p GAE \<Rightarrow> 'o
    \<Rightarrow> error option \<times> ('p GAE \<times> 'o) \<times> event list" where
  "train_class fw epochs cls dl autoencoder optimiser =
     epoch_loop fw cls dl [0..<epochs] (Module_train True autoencoder, optimiser)"

fun class_loop ::
  "('p, 'o) framework \<Rightarrow> nat \<Rightarrow> DataLoader list \<Rightarrow> ('p, 'o) world
    \<Rightarrow> error option \<times> ('p, 'o) world" where
  "class_loop fw cls [] w = (None, w)"
| "class_loop fw cls (data_loader # remaining) w =
     (if \<not> cls < length (optimisers (explainer w)) then (Some IndexError, w)
      else if \<not> cls < length (autoencoders (explainer w)) then (Some IndexError, w)
      else
        (case train_class fw (epochs_ae (explainer w)) cls data_loader
                (autoencoders (explainer w) ! cls) (optimisers (explainer w) ! cls) of
           (r, (autoencoder, optimiser), evs) \<Rightarrow>
             (let w1 = w\<lparr>explainer := (explainer w)
                          \<lparr>autoencoders := (autoencoders (explainer w))[cls := autoencoder],
                           optimisers := (optimisers (explainer w))[cls := optimiser]\<rparr>,
                         trace := trace w @ evs\<rparr>
              in case r of
                   Some e \<Rightarrow> (Some e, w1)
                 | None \<Rightarrow>
                    (case save_autoencoder w1 autoencoder cls of
                       Inl e \<Rightarrow> (Some e, w1)
                     | Inr w2 \<Rightarrow> class_loop fw (Suc cls) remaining w2))))"

text \<open>The private method \<open>__fit\<close>; the oracle is passed and never used.\<close>

definition fit_private ::
  "('p, 'o) framework \<Rightarrow> 'q \<Rightarrow> dataset \<Rightarrow> ('p, 'o) world \<Rightarrow> error option \<times> ('p, 'o) world" where
  "fit_private fw oracle ds w =
     (case transform_data (fold_id (explainer w)) ds of
        Inl e \<Rightarrow> (Some e, w)
      | Inr data_loaders \<Rightarrow> class_loop fw 0 data_loaders w)"

definition fit_name :: "('p, 'o) AdaptiveGCE \<Rightarrow> dataset \<Rightarrow> int \<Rightarrow> string" where
  "fit_name ex ds fid =
     class_name ex @ ''_fit_on_'' @ dataset_name ds @ ''_fold_id_'' @ str_int fid"

definition fit ::
  "('p, 'o) framework \<Rightarrow> 'q \<Rightarrow> dataset \<Rightarrow> int \<Rightarrow> ('p, 'o) world
    \<Rightarrow> error option \<times> ('p, 'o) world" where
  "fit fw oracle ds fid w =
     (let explainer_name' = fit_name (explainer w) ds fid;
          explainer_uri = path_join (explainer_store_path (explainer w)) explainer_name';
          w0 = w\<lparr>explainer := (explainer w)\<lparr>explainer_name := explainer_name'\<rparr>,
                 trace := trace w @ [Call_fit (dataset_name ds) fid]\<rparr>
      in if os_path_exists w0 explainer_uri
         then (case load_explainers w0 of
                 (Some e, w1) \<Rightarrow> (Some e, w1)
               | (None, w1) \<Rightarrow> (None, w1\<lparr>explainer := (explainer w1)\<lparr>fitted := True\<rparr>\<rparr>))
         else (case os_mkdir w0 explainer_uri of
                 Inl e \<Rightarrow> (Some e, w0)
               | Inr w1 \<Rightarrow>
                  (case fit_private fw oracle ds w1 of
                     (Some e, w2) \<Rightarrow> (Some e, w2)
                   | (None, w2) \<Rightarrow> (None, w2\<lparr>explainer := (explainer w2)\<lparr>fitted := True\<rparr>\<rparr>))))"


text \<open>The checkpoint directory of a fit: \<open>explainer_uri\<close> in \<open>fit\<close>.\<close>

definition fit_uri :: "('p, 'o) AdaptiveGCE \<Rightarrow> dataset \<Rightarrow> int \<Rightarrow> string" where
  "fit_uri ex ds fid = path_join (explainer_store_path ex) (fit_name ex ds fid)"

text \<open>
  Two states of the explainer that differ at most in the autoencoders' and optimisers'
  contents, the name and the fitted flag.
\<close>

definition same_settings :: "('p, 'o) AdaptiveGCE \<Rightarrow> ('p, 'o) AdaptiveGCE \<Rightarrow> bool" where
  "same_settings ex ex' =
     (class_name ex' = class_name ex \<and> explainer_store_path ex' = explainer_store_path ex \<and>
      num_classes ex' = num_classes ex \<and> fold_id ex' = fold_id ex \<and>
      epochs_ae ex' = epochs_ae ex \<and>
      length (autoencoders ex') = length (autoencoders ex) \<and>
      length (optimisers ex') = length (optimisers ex))"

text \<open>The state after the first statements of \<open>fit\<close>, which set \<open>self.name\<close>.\<close>

definition fit_entry :: "('p, 'o) world \<Rightarrow> dataset \<Rightarrow> int \<Rightarrow> ('p, 'o) world" where
  "fit_entry w ds fid =
     w\<lparr>explainer := (explainer w)\<lparr>explainer_name := fit_name (explainer w) ds fid\<rparr>,
       trace := trace w @ [Call_fit (dataset_name ds) fid]\<rparr>"

text \<open>
  A framework for examples: layers that return their input, losses of 0, optimiser steps
  that leave the parameters, loaders that keep the order of their samples.
\<close>

definition example_framework :: "(real, unit) framework" where
  "example_framework =
     \<lparr>fw_gcn = identity_gcn,
      fw_bernoulli = (\<lambda>cls epoch b call i j. True),
      fw_recon_loss = (\<lambda>z ei. Inr 0),
      fw_backward_step = (\<lambda>optimiser ae z loss ei ea. Inr (optimiser, state_dict ae)),
      fw_sampler = (\<lambda>cls epoch n. [0..<n])\<rparr>"

text \<open>An explainer for \<open>n\<close> classes, not fitted, in a file system with the store directory.\<close>

definition example_world :: "nat \<Rightarrow> (real, unit) world" where
  "example_world n =
     \<lparr>explainer =
        \<lparr>class_name = ''AdaptiveGCE'', explainer_store_path = ''store'',
         explainer_name = ''abstract_explainer'', num_classes = n, fold_id = 0, epochs_ae = 1,
         autoencoders = replicate n (GAE_init (GCNEncoder_init 1 2 0 0 0)),
         optimisers = replicate n (),
         fitted = False\<rparr>,
      dirs = [''store''], files = [], trace = []\<rparr>"

text \<open>
  A file system in which every directory and every file lies in a directory that is
  there.
\<close>

definition fs_wellformed :: "('p, 'o) world \<Rightarrow> bool" where
  "fs_wellformed w = list_all (\<lambda>p. is_dir w (dirname p)) (dirs w @ map fst (files w))"

text \<open>
  For stating what the loop over the classes leaves behind: the state after the
  iteration for class \<open>cls\<close> when its training and its save go through, and after the
  iterations for a list of loaders from class \<open>cls\<close> on.
\<close>

definition class_done ::
  "('p, 'o) framework \<Rightarrow> nat \<Rightarrow> DataLoader \<Rightarrow> ('p, 'o) world \<Rightarrow> ('p, 'o) world" where
  "class_done fw cls dl w =
     (case train_class fw (epochs_ae (explainer w)) cls dl
             (autoencoders (explainer w) ! cls) (optimisers (explainer w) ! cls) of
        (r, (autoencoder, optimiser), evs) \<Rightarrow>
          w\<lparr>explainer := (explainer w)
                \<lparr>autoencoders := (autoencoders (explainer w))[cls := autoencoder],
                 optimisers := (optimisers (explainer w))[cls := optimiser]\<rparr>,
            trace := trace w @ evs,
            files := (checkpoint_path (explainer w) cls, state_dict autoencoder) #
                     filter (\<lambda>(q, _). q \<noteq> checkpoint_path (explainer w) cls) (files w)\<rparr>)"

fun classes_done ::
  "('p, 'o) framework \<Rightarrow> nat \<Rightarrow> DataLoader list \<Rightarrow> ('p, 'o) world \<Rightarrow> ('p, 'o) world" where
  "classes_done fw cls [] w = w"
| "classes_done fw cls (dl # dls) w = classes_done fw (Suc cls) dls (class_done fw cls dl w)"

text \<open>Every save of a checkpoint in this state finds its directory and no directory in its place.\<close>

definition saves_possible :: "('p, 'o) world \<Rightarrow> bool" where
  "saves_possible w =
     (\<forall>k. checkpoint_path (explainer w) k \<notin> set (dirs w) \<and>
          is_dir w (dirname (checkpoint_path (explainer w) k)))"

text \<open>The class whose training printed an event.\<close>

fun event_class :: "event \<Rightarrow> nat option" where
  "event_class (Epoch_log cls _ _) = Some cls"
| "event_class _ = None"

text \<open>The example framework with a loss that fails on graphs of more than one edge.\<close>

definition failing_framework :: "(real, unit) framework" where
  "failing_framework =
     example_framework
       \<lparr>fw_recon_loss := (\<lambda>z ei. if 1 < length (fst ei) then Inl (FrameworkError ''nan'')
                                else Inr 0)\<rparr>"

text \<open>The loaders that \<open>transform_data\<close> builds for fold 0 of the example dataset.\<close>

definition example_loaders :: "DataLoader list" where
  "example_loaders =
     [\<lparr>loader_dataset = [\<lparr>data_x = [[4], [1]], data_y = 0, edge_index = ([0], [1]),
         edge_attr = [5]\<rparr>], loader_batch_size = 1, loader_shuffle = True\<rparr>,
      \<lparr>loader_dataset = [\<lparr>data_x = [[1], [1]], data_y = 1, edge_index = ([0, 1], [1, 0]),
         edge_attr = [2, 3]\<rparr>], loader_batch_size = 1, loader_shuffle = True\<rparr>]"





section \<open>Properties of DynamicEvaluator\<close>

lemma fold_min_Min: "fold min ks (k::int) = Min (set (k # ks))"
proof (induction ks arbitrary: k)
  case Nil
  show ?case by simp
next
  case (Cons a ks)
  have "fold min (a # ks) k = Min (set (min a k # ks))"
    using Cons.IH [of "min a k"] by simp
  also have "\<dots> = Min (set (k # a # ks))"
  proof (cases ks)
    case Nil
    then show ?thesis by (simp add: min.commute)
  next
    case (Cons b bs)
    then show ?thesis by (simp add: min.assoc min.left_commute min.commute)
  qed
  finally show ?case .
qed

lemma py_min_Min: "ks \<noteq> [] \<Longrightarrow> py_min ks = Inr (Min (set ks))"
  by (cases ks) (simp_all add: py_min_def fold_min_Min del: set_simps)

lemma py_min_empty: "py_min [] = Inl ValueError"
  by (simp add: py_min_def)

lemma dict_get_first: "dict_get ((k, v) # d) k = Inr v"
  by (simp add: dict_get_def)

lemma evaluate_nonempty:
  assumes "dyn_graph s = (t0, d0) # rest"
  shows "evaluate se s =
    ([Print_iteration (t0 - Min (set (map fst (dyn_graph s)))),
      Super_evaluate (s\<lparr>explainer_iteration := Some (t0 - Min (set (map fst (dyn_graph s)))),
                        evaluator_data := d0\<rparr>)],
     se (s\<lparr>explainer_iteration := Some (t0 - Min (set (map fst (dyn_graph s)))),
            evaluator_data := d0\<rparr>))"
proof -
  have ne: "map fst (dyn_graph s) \<noteq> []" using assms by simp
  have keys: "map fst (dyn_graph s) = t0 # map fst rest" using assms by simp
  show ?thesis
    unfolding evaluate_def py_min_Min [OF ne]
    by (simp add: keys Let_def) (simp add: assms dict_get_first)
qed

text \<open>
  C3. Whenever the dynamic graph has at least one time key, one call of \<open>evaluate\<close>
  invokes the inherited single-snapshot evaluation exactly once, however many keys
  there are: the observable events are one printed line followed by one call of the
  inherited protocol, and whatever that call returns or raises is the outcome.
\<close>

theorem evaluate_single_snapshot:
  assumes "dyn_graph s \<noteq> []"
  shows "length (filter is_Super_evaluate (fst (evaluate super_evaluate s))) = 1 \<and>
         (\<exists>k s'. evaluate super_evaluate s =
            ([Print_iteration k, Super_evaluate s'], super_evaluate s'))"
proof -
  obtain t0 d0 rest where dg: "dyn_graph s = (t0, d0) # rest"
    using assms by (cases "dyn_graph s") auto
  have "length (filter is_Super_evaluate (fst (evaluate super_evaluate s))) = 1"
    by (simp add: evaluate_nonempty [OF dg])
  moreover have "\<exists>k s'. evaluate super_evaluate s =
           ([Print_iteration k, Super_evaluate s'], super_evaluate s')"
    using evaluate_nonempty [OF dg] by blast
  ultimately show ?thesis by blast
qed

theorem evaluate_single_snapshot_witness:
  "dyn_graph \<lparr>dyn_graph = [(5, ''d5''), (8, ''d8''), (13, ''d13'')],
              evaluator_data = ''d0'', explainer_iteration = None\<rparr> \<noteq> []
   \<and> length (filter is_Super_evaluate (fst (evaluate Inr
        \<lparr>dyn_graph = [(5, ''d5''), (8, ''d8''), (13, ''d13'')],
         evaluator_data = ''d0'', explainer_iteration = None\<rparr>))) = 1"
  using evaluate_single_snapshot [of
      "\<lparr>dyn_graph = [(5, ''d5''), (8, ''d8''), (13, ''d13'')],
        evaluator_data = ''d0'', explainer_iteration = None\<rparr>" Inr]
  by simp

text \<open>
  C4 (as stated) fails: the loop follows the dict's own key order, which need not be
  ascending. With the keys stored in the order 8, 5 the first processed snapshot is the
  one at key 8 and the iteration counter is 8 - 5 = 3.
\<close>

theorem evaluate_first_key_counterexample:
  "fst (evaluate Inr \<lparr>dyn_graph = [(8, ''d8''), (5, ''d5'')],
                        evaluator_data = ''d0'', explainer_iteration = None\<rparr>) =
     [Print_iteration 3,
      Super_evaluate \<lparr>dyn_graph = [(8, ''d8''), (5, ''d5'')],
                      evaluator_data = ''d8'', explainer_iteration = Some 3\<rparr>]"
  by (simp add: evaluate_def py_min_def dict_get_def Let_def)

text \<open>
  C4 (amended). For a dynamic graph with at least one key, \<open>evaluate\<close> processes the
  first key of the dict's own iteration order: before the inherited evaluation runs, the
  explainer's iteration counter is that key minus the minimum key and the active dataset
  is the snapshot stored at that key. When the keys are stored in ascending order, the
  first key is the minimum key, so the counter is 0 and the active dataset is the
  snapshot at the minimum key.
\<close>

theorem evaluate_first_key:
  assumes "dyn_graph s = (t0, d0) # rest"
  shows "fst (evaluate super_evaluate s) =
          [Print_iteration (t0 - Min (set (map fst (dyn_graph s)))),
           Super_evaluate (s\<lparr>explainer_iteration := Some (t0 - Min (set (map fst (dyn_graph s)))),
                             evaluator_data := d0\<rparr>)]
       \<and> (sorted (map fst (dyn_graph s)) \<longrightarrow>
          t0 = Min (set (map fst (dyn_graph s))) \<and>
          map_of (dyn_graph s) (Min (set (map fst (dyn_graph s)))) = Some d0 \<and>
          fst (evaluate super_evaluate s) =
            [Print_iteration 0,
             Super_evaluate (s\<lparr>explainer_iteration := Some 0, evaluator_data := d0\<rparr>)])"
proof (intro conjI impI)
  show first: "fst (evaluate super_evaluate s) =
          [Print_iteration (t0 - Min (set (map fst (dyn_graph s)))),
           Super_evaluate (s\<lparr>explainer_iteration := Some (t0 - Min (set (map fst (dyn_graph s)))),
                             evaluator_data := d0\<rparr>)]"
    by (simp add: evaluate_nonempty [OF assms])
  assume srt: "sorted (map fst (dyn_graph s))"
  have "\<forall>k \<in> set (map fst rest). t0 \<le> k"
    using srt assms by simp
  then have m: "Min (set (map fst (dyn_graph s))) = t0"
    unfolding assms by (intro Min_eqI) auto
  show "t0 = Min (set (map fst (dyn_graph s)))"
    using m by simp
  show "map_of (dyn_graph s) (Min (set (map fst (dyn_graph s)))) = Some d0"
    unfolding m by (simp add: assms)
  show "fst (evaluate super_evaluate s) =
            [Print_iteration 0,
             Super_evaluate (s\<lparr>explainer_iteration := Some 0, evaluator_data := d0\<rparr>)]"
    using first unfolding m by simp
qed

theorem evaluate_first_key_witness:
  "dyn_graph \<lparr>dyn_graph = [(5, ''d5''), (8, ''d8''), (13, ''d13'')],
              evaluator_data = ''d0'', explainer_iteration = None\<rparr>
     = (5, ''d5'') # [(8, ''d8''), (13, ''d13'')]
   \<and> sorted (map fst (dyn_graph \<lparr>dyn_graph = [(5, ''d5''), (8, ''d8''), (13, ''d13'')],
              evaluator_data = ''d0'', explainer_iteration = None\<rparr>))
   \<and> fst (evaluate Inr \<lparr>dyn_graph = [(5, ''d5''), (8, ''d8''), (13, ''d13'')],
              evaluator_data = ''d0'', explainer_iteration = None\<rparr>) =
       [Print_iteration 0,
        Super_evaluate \<lparr>dyn_graph = [(5, ''d5''), (8, ''d8''), (13, ''d13'')],
              evaluator_data = ''d5'', explainer_iteration = Some 0\<rparr>]"
  using evaluate_first_key [of
      "\<lparr>dyn_graph = [(5, ''d5''), (8, ''d8''), (13, ''d13'')],
        evaluator_data = ''d0'', explainer_iteration = None\<rparr>"
      5 "''d5''" "[(8, ''d8''), (13, ''d13'')]" Inr]
  by simp

section \<open>Properties of the data transformation\<close>

subsection \<open>Sparse conversion\<close>

lemma length_filter_nth:
  "length (filter (\<lambda>c. P (xs ! c)) [0..<length xs]) = length (filter P xs)"
proof -
  have "filter P xs = filter P (map (\<lambda>c. xs ! c) [0..<length xs])"
    by (simp add: map_nth)
  also have "\<dots> = map (\<lambda>c. xs ! c) (filter (\<lambda>c. P (xs ! c)) [0..<length xs])"
    by (simp add: filter_map comp_def)
  finally show ?thesis by simp
qed

lemma length_nonzero:
  "length (nonzero m) = length (filter (\<lambda>v. v \<noteq> 0) (concat m))"
proof -
  have "length (nonzero m) = sum_list (map (\<lambda>r. length (filter (\<lambda>v. v \<noteq> 0) (m ! r))) [0..<length m])"
    by (simp add: nonzero_def length_concat comp_def length_filter_nth [of "\<lambda>v. v \<noteq> 0"])
  also have "\<dots> = sum_list (map (\<lambda>row. length (filter (\<lambda>v. v \<noteq> 0) row)) (map (\<lambda>r. m ! r) [0..<length m]))"
    by (simp add: comp_def)
  also have "\<dots> = length (filter (\<lambda>v. v \<noteq> 0) (concat m))"
    by (simp add: map_nth filter_concat length_concat comp_def)
  finally show ?thesis .
qed

lemma nonzero_iff:
  "(r, c) \<in> set (nonzero m) \<longleftrightarrow> r < length m \<and> c < length (m ! r) \<and> m ! r ! c \<noteq> 0"
  by (auto simp: nonzero_def)

lemma scatter_dense_fold:
  "scatter_dense z (transpose_pairs a) (index_pairs m a) = fold (write_entry m) a z"
proof -
  have "zip (zip (map fst a) (map snd a)) (map (\<lambda>(r, c). m ! r ! c) a)
        = map (\<lambda>p. (p, m ! fst p ! snd p)) a"
    by (induction a) auto
  then show ?thesis
    by (simp add: scatter_dense_def transpose_pairs_def index_pairs_def fold_map comp_def
        write_entry_def [abs_def] split_def)
qed

lemma fold_write_entry:
  "map length (fold (write_entry m) ps M) = map length M \<and>
   (\<forall>r c. r < length M \<longrightarrow> c < length (M ! r) \<longrightarrow>
      fold (write_entry m) ps M ! r ! c = (if (r, c) \<in> set ps then m ! r ! c else M ! r ! c))"
proof (induction ps arbitrary: M)
  case Nil
  show ?case by simp
next
  case (Cons p ps)
  let ?M = "write_entry m p M"
  have len: "map length ?M = map length M"
  proof (rule nth_equalityI)
    show "length (map length ?M) = length (map length M)"
      by (simp add: write_entry_def)
    fix i assume "i < length (map length ?M)"
    then have i: "i < length M" by (simp add: write_entry_def)
    show "map length ?M ! i = map length M ! i"
      using i by (cases "i = fst p") (simp_all add: write_entry_def)
  qed
  then have len': "length ?M = length M" "\<And>r. r < length M \<Longrightarrow> length (?M ! r) = length (M ! r)"
    by (metis length_map, metis length_map nth_map)
  have ent: "\<And>r c. r < length M \<Longrightarrow> c < length (M ! r) \<Longrightarrow>
      ?M ! r ! c = (if (r, c) = p then m ! r ! c else M ! r ! c)"
  proof -
    fix r c assume r: "r < length M" and c: "c < length (M ! r)"
    show "?M ! r ! c = (if (r, c) = p then m ! r ! c else M ! r ! c)"
    proof (cases "r = fst p")
      case True
      then show ?thesis using r c
        by (cases p; cases "c = snd p") (simp_all add: write_entry_def)
    next
      case False
      then show ?thesis using r by (cases p) (auto simp: write_entry_def)
    qed
  qed
  show ?case
    using Cons.IH [of ?M] len len' ent by (auto simp: )
qed

lemma scatter_round_trip:
  "scatter_dense (zeros_like m) (transpose_pairs (nonzero m)) (index_pairs m (nonzero m)) = m"
proof -
  let ?R = "fold (write_entry m) (nonzero m) (zeros_like m)"
  have z: "map length (zeros_like m) = map length m" "length (zeros_like m) = length m"
    by (simp_all add: zeros_like_def comp_def)
  have zl: "\<And>r. r < length m \<Longrightarrow> length (zeros_like m ! r) = length (m ! r)"
    by (simp add: zeros_like_def)
  have ze: "\<And>r c. r < length m \<Longrightarrow> c < length (m ! r) \<Longrightarrow> zeros_like m ! r ! c = 0"
    by (simp add: zeros_like_def)
  from fold_write_entry [of m "nonzero m" "zeros_like m"]
  have sh: "map length ?R = map length m"
    and en: "\<And>r c. r < length m \<Longrightarrow> c < length (m ! r) \<Longrightarrow>
      ?R ! r ! c = (if (r, c) \<in> set (nonzero m) then m ! r ! c else 0)"
    using z zl ze by auto
  have l: "length ?R = length m" using sh by (metis length_map)
  have "?R = m"
  proof (rule nth_equalityI [OF l])
    fix r assume r: "r < length ?R"
    then have r': "r < length m" using l by simp
    have lr: "length (?R ! r) = length (m ! r)"
      using sh r' l by (metis nth_map)
    show "?R ! r = m ! r"
    proof (rule nth_equalityI [OF lr])
      fix c assume "c < length (?R ! r)"
      then have c: "c < length (m ! r)" using lr by simp
      show "?R ! r ! c = m ! r ! c"
        using en [OF r' c] r' c by (auto simp: nonzero_iff)
    qed
  qed
  then show ?thesis by (simp add: scatter_dense_fold)
qed

lemma nonzero_in_range:
  "(r, c) \<in> set (nonzero m) \<Longrightarrow> r < length m \<and> c < length (m ! r)"
  by (simp add: nonzero_iff)

text \<open>
  C6. For every dense weighted-adjacency matrix, the \<open>edge_index\<close> of the sample built in
  \<open>transform_data\<close> has as many columns as the matrix has non-zero entries, \<open>edge_attr\<close> has
  as many weights, and writing the weights back at the indexed positions of a zero matrix
  of the same shape gives the original matrix.
\<close>

theorem sparse_round_trip:
  "length (fst (edge_index (make_Data x adj y))) = length (filter (\<lambda>v. v \<noteq> 0) (concat adj)) \<and>
   length (snd (edge_index (make_Data x adj y))) = length (filter (\<lambda>v. v \<noteq> 0) (concat adj)) \<and>
   length (edge_attr (make_Data x adj y)) = length (filter (\<lambda>v. v \<noteq> 0) (concat adj)) \<and>
   scatter_dense (zeros_like adj) (edge_index (make_Data x adj y)) (edge_attr (make_Data x adj y))
     = adj"
  by (simp add: make_Data_def Let_def scatter_round_trip)
    (simp add: transpose_pairs_def index_pairs_def length_nonzero)

subsection \<open>Per-class collections\<close>














section \<open>Properties of the encoder\<close>

lemma has_shape_leaky_relu: "has_shape n c t \<Longrightarrow> has_shape n c (leaky_relu s t)"
  by (simp add: has_shape_def leaky_relu_def list_all_iff)

lemma has_shape_dropout: "has_shape n c t \<Longrightarrow> has_shape n c (dropout keep p b t)"
  by (auto simp: has_shape_def dropout_def list_all_iff)

lemma has_shape_tanh: "has_shape n c t \<Longrightarrow> has_shape n c (map (map tanh) t)"
  by (simp add: has_shape_def list_all_iff)

lemma tanh_entries: "\<forall>row \<in> set (map (map tanh) (t::tensor)). \<forall>v \<in> set row. - 1 \<le> v \<and> v \<le> 1"
proof -
  have "- 1 \<le> tanh (v::real) \<and> tanh v \<le> 1" for v
    using tanh_real_gt_neg1 [of v] tanh_real_lt_1 [of v] by simp
  then show ?thesis by auto
qed

lemma gcn_contractD:
  "gcn_contract gcn \<Longrightarrow> valid_edges n ei ew \<Longrightarrow> has_shape n (in_channels cv) x \<Longrightarrow>
     \<exists>y. gcn cv x ei ew = Inr y \<and> has_shape n (out_channels cv) y"
  unfolding gcn_contract_def has_shape_def by blast

lemma constant_gcn_contract: "gcn_contract constant_gcn"
  by (simp add: gcn_contract_def constant_gcn_def has_shape_def list_all_iff)

lemma GCNEncoder_init_channels:
  "in_channels (conv1 ((GCNEncoder_init i c p1 p2 p3)\<lparr>training := b\<rparr>)) = i"
  "out_channels (conv1 ((GCNEncoder_init i c p1 p2 p3)\<lparr>training := b\<rparr>)) = c"
  "in_channels (conv2 ((GCNEncoder_init i c p1 p2 p3)\<lparr>training := b\<rparr>)) = c"
  "out_channels (conv2 ((GCNEncoder_init i c p1 p2 p3)\<lparr>training := b\<rparr>)) = c"
  "in_channels (conv3 ((GCNEncoder_init i c p1 p2 p3)\<lparr>training := b\<rparr>)) = c"
  "out_channels (conv3 ((GCNEncoder_init i c p1 p2 p3)\<lparr>training := b\<rparr>)) = i"
  by (simp_all add: GCNEncoder_init_def)

text \<open>
  C9. For an input graph of N nodes with the configured input channel count, an encoder
  configured with C output channels, and graph convolutions that keep their contract:
  the first two stages of \<open>forward\<close> each return an N x C embedding, and the third stage,
  which is the result of \<open>forward\<close>, returns an N x (input channel count) embedding whose
  entries lie in [-1, 1], whatever the training attribute and the dropout draws are.
\<close>

theorem forward_shapes:
  assumes "gcn_contract gcn"
    and "has_shape n in_ch x"
    and "valid_edges n ei ew"
    and "enc = (GCNEncoder_init in_ch out_ch p1 p2 p3)\<lparr>training := b\<rparr>"
  shows "\<exists>x1 x2 x3.
     forward_stage1 gcn keep1 enc x ei ew = Inr x1 \<and> has_shape n out_ch x1 \<and>
     forward_stage2 gcn keep2 enc x1 ei ew = Inr x2 \<and> has_shape n out_ch x2 \<and>
     forward_stage3 gcn enc x2 ei ew = Inr x3 \<and> has_shape n in_ch x3 \<and>
     forward gcn keep1 keep2 enc x ei ew = Inr x3 \<and>
     (\<forall>row \<in> set x3. \<forall>v \<in> set row. - 1 \<le> v \<and> v \<le> 1)"
proof -
  note ch = GCNEncoder_init_channels [where i = in_ch and c = out_ch and ?p1.0 = p1
      and ?p2.0 = p2 and ?p3.0 = p3 and b = b, folded assms(4)]
  from gcn_contractD [OF assms(1) assms(3), of "conv1 enc" x] assms(2)
  obtain y1 where y1: "gcn (conv1 enc) x ei ew = Inr y1" "has_shape n out_ch y1"
    by (auto simp: ch)
  define x1 where "x1 = dropout keep1 0.2 (training enc) (leaky_relu 0.2 y1)"
  have s1: "forward_stage1 gcn keep1 enc x ei ew = Inr x1"
    by (simp add: forward_stage1_def y1 x1_def)
  have h1: "has_shape n out_ch x1"
    unfolding x1_def by (intro has_shape_dropout has_shape_leaky_relu y1)
  from gcn_contractD [OF assms(1) assms(3), of "conv2 enc" x1] h1
  obtain y2 where y2: "gcn (conv2 enc) x1 ei ew = Inr y2" "has_shape n out_ch y2"
    by (auto simp: ch)
  define x2 where "x2 = dropout keep2 0.2 (training enc) (leaky_relu 0.2 y2)"
  have s2: "forward_stage2 gcn keep2 enc x1 ei ew = Inr x2"
    by (simp add: forward_stage2_def y2 x2_def)
  have h2: "has_shape n out_ch x2"
    unfolding x2_def by (intro has_shape_dropout has_shape_leaky_relu y2)
  from gcn_contractD [OF assms(1) assms(3), of "conv3 enc" x2] h2
  obtain y3 where y3: "gcn (conv3 enc) x2 ei ew = Inr y3" "has_shape n in_ch y3"
    by (auto simp: ch)
  define x3 where "x3 = map (map tanh) y3"
  have s3: "forward_stage3 gcn enc x2 ei ew = Inr x3"
    by (simp add: forward_stage3_def y3 x3_def)
  have h3: "has_shape n in_ch x3"
    unfolding x3_def by (rule has_shape_tanh [OF y3(2)])
  have f: "forward gcn keep1 keep2 enc x ei ew = Inr x3"
    by (simp add: forward_def s1 s2 s3)
  have bd: "\<forall>row \<in> set x3. \<forall>v \<in> set row. - 1 \<le> v \<and> v \<le> 1"
    unfolding x3_def by (rule tanh_entries)
  from s1 h1 s2 h2 s3 h3 f bd show ?thesis by blast
qed

theorem forward_shapes_witness:
  "gcn_contract constant_gcn \<and> has_shape 2 1 [[1], [2]] \<and> valid_edges 2 ([0], [1]) [1] \<and>
   (\<exists>x3. forward constant_gcn (\<lambda>i j. True) (\<lambda>i j. False)
            ((GCNEncoder_init 1 3 0.5 0.25 2)\<lparr>training := True\<rparr>) [[1], [2]] ([0], [1]) [1] = Inr x3 \<and>
          has_shape 2 1 x3)"
proof -
  have h: "has_shape 2 1 [[1], [2]]" by (simp add: has_shape_def)
  have v: "valid_edges 2 ([0], [1]) [1]" by (simp add: valid_edges_def)
  from forward_shapes [OF constant_gcn_contract h v refl, where out_ch = 3 and ?p1.0 = "0.5"
      and ?p2.0 = "0.25" and ?p3.0 = 2 and b = True and ?keep1.0 = "\<lambda>i j. True"
      and ?keep2.0 = "\<lambda>i j. False"]
  show ?thesis using h v constant_gcn_contract by blast
qed

section \<open>Properties of paths\<close>

lemma digit_char_not_slash: "d < 10 \<Longrightarrow> digit_char d \<noteq> CHR ''/''"
proof -
  assume "d < 10"
  then have "d \<in> {0,1,2,3,4,5,6,7,8,9}" by auto
  then show ?thesis by (auto simp: digit_char_def)
qed

lemma digit_char_inj: "a < 10 \<Longrightarrow> b < 10 \<Longrightarrow> digit_char a = digit_char b \<Longrightarrow> a = b"
proof -
  assume "a < 10" "b < 10" and eq: "digit_char a = digit_char b"
  then have "a \<in> {0,1,2,3,4,5,6,7,8,9}" "b \<in> {0,1,2,3,4,5,6,7,8,9}" by auto
  then show ?thesis using eq by (auto simp: digit_char_def)
qed

lemma str_nat_nonempty: "str_nat n \<noteq> []"
  by (subst str_nat.simps) simp

lemma str_nat_no_slash: "CHR ''/'' \<notin> set (str_nat n)"
proof (induction n rule: str_nat.induct)
  case (1 n)
  show ?case
  proof (cases "n < 10")
    case True
    then show ?thesis using digit_char_not_slash [of n] by (subst str_nat.simps) auto
  next
    case False
    then show ?thesis
      using 1 digit_char_not_slash [of "n mod 10"] by (subst str_nat.simps) auto
  qed
qed

lemma last_str_nat: "last (str_nat n) \<noteq> CHR ''/''"
  using str_nat_no_slash [of n] str_nat_nonempty [of n] last_in_set by metis

lemma str_nat_inj: "str_nat n = str_nat m \<Longrightarrow> n = m"
proof (induction n arbitrary: m rule: str_nat.induct)
  case (1 n)
  show ?case
  proof (cases "n < 10")
    case True
    show ?thesis
    proof (cases "m < 10")
      case m: True
      from 1(2) True m have "digit_char n = digit_char m"
        by (simp add: str_nat.simps [of n] str_nat.simps [of m])
      then show ?thesis using digit_char_inj True m by blast
    next
      case m: False
      from 1(2) True m have "[digit_char n] = str_nat (m div 10) @ [digit_char (m mod 10)]"
        by (simp add: str_nat.simps [of n] str_nat.simps [of m])
      then show ?thesis using str_nat_nonempty [of "m div 10"] by simp
    qed
  next
    case False
    show ?thesis
    proof (cases "m < 10")
      case m: True
      from 1(2) False m have "str_nat (n div 10) @ [digit_char (n mod 10)] = [digit_char m]"
        by (simp add: str_nat.simps [of n] str_nat.simps [of m])
      then show ?thesis using str_nat_nonempty [of "n div 10"] by simp
    next
      case m: False
      from 1(2) False m have
        "str_nat (n div 10) @ [digit_char (n mod 10)] = str_nat (m div 10) @ [digit_char (m mod 10)]"
        by (simp add: str_nat.simps [of n] str_nat.simps [of m])
      then have a: "str_nat (n div 10) = str_nat (m div 10)"
        and b: "digit_char (n mod 10) = digit_char (m mod 10)" by auto
      from 1(1) [OF False a] have "n div 10 = m div 10" .
      moreover from b have "n mod 10 = m mod 10" by (intro digit_char_inj) auto
      ultimately show ?thesis by (metis div_mult_mod_eq)
    qed
  qed
qed

lemma str_int_last: "str_int i \<noteq> [] \<and> last (str_int i) \<noteq> CHR ''/''"
  by (simp add: str_int_def str_nat_nonempty last_str_nat)

lemma fit_name_last: "fit_name ex ds fid \<noteq> [] \<and> last (fit_name ex ds fid) \<noteq> CHR ''/''"
  using str_int_last [of fid] by (simp add: fit_name_def)

lemma path_join_last:
  "b \<noteq> [] \<Longrightarrow> last b \<noteq> CHR ''/'' \<Longrightarrow> path_join a b \<noteq> [] \<and> last (path_join a b) = last b"
  by (simp add: path_join_def)

lemma path_join_file:
  "X \<noteq> [] \<Longrightarrow> last X \<noteq> CHR ''/'' \<Longrightarrow> f \<noteq> [] \<Longrightarrow> CHR ''/'' \<notin> set f \<Longrightarrow>
     path_join X f = X @ ''/'' @ f"
  by (cases f) (auto simp: path_join_def)

lemma dirname_file:
  assumes "X \<noteq> []" "last X \<noteq> CHR ''/''" "CHR ''/'' \<notin> set f"
  shows "dirname (X @ ''/'' @ f) = X"
proof -
  have r: "rev (X @ ''/'' @ f) = rev f @ CHR ''/'' # rev X" by simp
  have d1: "dropWhile (\<lambda>c. c \<noteq> CHR ''/'') (rev f @ CHR ''/'' # rev X) = CHR ''/'' # rev X"
  proof -
    have "\<forall>x \<in> set (rev f). x \<noteq> CHR ''/''" using assms(3) by auto
    then show ?thesis by (simp add: dropWhile_append)
  qed
  have hd: "hd (rev X) \<noteq> CHR ''/''" using assms(1,2) by (simp add: hd_rev)
  have d2: "dropWhile (\<lambda>c. c = CHR ''/'') (rev X) = rev X"
    using assms(1) hd by (cases "rev X") auto
  have "last X \<in> set X" using assms(1) by simp
  then have na: "\<not> list_all (\<lambda>c. c = CHR ''/'') (X @ ''/'')"
    using assms(2) by (auto simp: list_all_iff)
  define head where "head = rev (dropWhile (\<lambda>c. c \<noteq> CHR ''/'') (rev (X @ ''/'' @ f)))"
  have h: "head = X @ ''/''"
    unfolding head_def r d1 by simp
  have d3: "dropWhile (\<lambda>c. c = CHR ''/'') (rev (X @ ''/'')) = rev X"
    using d2 by simp
  have "dirname (X @ ''/'' @ f) =
      (if head \<noteq> [] \<and> \<not> list_all (\<lambda>c. c = CHR ''/'') head
       then rev (dropWhile (\<lambda>c. c = CHR ''/'') (rev head)) else head)"
    unfolding dirname_def head_def Let_def ..
  also have "\<dots> = rev (dropWhile (\<lambda>c. c = CHR ''/'') (rev (X @ ''/'')))"
    unfolding h using na by simp
  also have "\<dots> = X" unfolding d3 by simp
  finally show ?thesis .
qed

section \<open>Properties of fitting\<close>

lemma same_settings_refl: "same_settings ex ex"
  by (simp add: same_settings_def)

lemma same_settings_trans:
  "same_settings a b \<Longrightarrow> same_settings b c \<Longrightarrow> same_settings a c"
  by (simp add: same_settings_def)



lemma batch_loop_training:
  "batch_loop fw cls epoch b items st losses = (r, st', losses') \<Longrightarrow>
     training (encoder (fst st')) = training (encoder (fst st)) \<and>
     gae_training (fst st') = gae_training (fst st)"
proof (induction items arbitrary: b st losses)
  case Nil
  then show ?case by simp
next
  case (Cons item items)
  show ?case
  proof (cases "train_batch fw cls epoch b item st")
    case (Inl e)
    with Cons.prems show ?thesis by simp
  next
    case (Inr res)
    obtain st1 loss where res: "res = (st1, loss)" by (cases res) auto
    from Inr res Cons.prems have "batch_loop fw cls epoch (Suc b) items st1 (losses @ [loss]) = (r, st', losses')"
      by simp
    from Cons.IH [OF this] have a: "training (encoder (fst st')) = training (encoder (fst st1))"
      and b: "gae_training (fst st') = gae_training (fst st1)" by auto
    from Inr res have "training (encoder (fst st1)) = training (encoder (fst st)) \<and>
        gae_training (fst st1) = gae_training (fst st)"
      by (auto simp: train_batch_def load_state_dict_def Let_def split: prod.splits sum.splits)
    with a b show ?thesis by simp
  qed
qed

lemma epoch_loop_events:
  "epoch_loop fw cls dl epochs st = (r, st', evs) \<Longrightarrow>
     list_all is_Epoch_log evs \<and> (\<forall>c ep ls. Epoch_log c ep ls \<in> set evs \<longrightarrow> c = cls)"
proof (induction epochs arbitrary: st r st' evs)
  case Nil
  then show ?case by simp
next
  case (Cons ep eps)
  obtain rb stb lb where b: "batch_loop fw cls ep 0 (loader_items fw cls ep dl) st [] = (rb, stb, lb)"
    by (metis prod_cases3)
  show ?case
  proof (cases rb)
    case (Some e)
    with Cons.prems b show ?thesis by simp
  next
    case None
    obtain r2 st2 ev2 where e2: "epoch_loop fw cls dl eps stb = (r2, st2, ev2)"
      by (metis prod_cases3)
    from Cons.prems b None e2 have "evs = Epoch_log cls ep lb # ev2" by simp
    with Cons.IH [OF e2] show ?thesis by auto
  qed
qed


lemma map_of_written:
  "map_of ((p, sd) # filter (\<lambda>(q, _). q \<noteq> p) fs) q = (if q = p then Some sd else map_of fs q)"
  by (induction fs) auto



lemma class_loop_step:
  assumes "cls < length (optimisers (explainer w))" "cls < length (autoencoders (explainer w))"
    and "train_class fw (epochs_ae (explainer w)) cls dl
           (autoencoders (explainer w) ! cls) (optimisers (explainer w) ! cls) = (r1, (ae, opt), evs)"
  shows "class_loop fw cls (dl # dls) w =
     (let w1 = w\<lparr>explainer := (explainer w)
                  \<lparr>autoencoders := (autoencoders (explainer w))[cls := ae],
                   optimisers := (optimisers (explainer w))[cls := opt]\<rparr>,
                 trace := trace w @ evs\<rparr>
      in case r1 of
           Some e \<Rightarrow> (Some e, w1)
         | None \<Rightarrow>
            (case save_autoencoder w1 ae cls of
               Inl e \<Rightarrow> (Some e, w1)
             | Inr w2 \<Rightarrow> class_loop fw (Suc cls) dls w2))"
  using assms by simp


lemma example_transform_data:
  "transform_data 0 example_dataset =
     Inr [\<lparr>loader_dataset = [\<lparr>data_x = [[4], [1]], data_y = 0, edge_index = ([0], [1]), edge_attr = [5]\<rparr>],
           loader_batch_size = 1, loader_shuffle = True\<rparr>,
          \<lparr>loader_dataset = [\<lparr>data_x = [[1], [1]], data_y = 1, edge_index = ([0, 1], [1, 0]),
            edge_attr = [2, 3]\<rparr>], loader_batch_size = 1, loader_shuffle = True\<rparr>]"
  by code_simp

lemma example_uri:
  "fit_uri (explainer (example_world n)) example_dataset 0 = ''store/AdaptiveGCE_fit_on_toy_fold_id_0''"
  by (simp add: fit_uri_def fit_name_def example_world_def example_dataset_def str_int_def
      str_nat.simps digit_char_def path_join_def)

lemma example_dirname:
  "dirname ''store/AdaptiveGCE_fit_on_toy_fold_id_0'' = ''store''"
  by code_simp

lemma example_ckpt_dirname:
  "dirname (''store/AdaptiveGCE_fit_on_toy_fold_id_0/autoencoder_'' @ str_nat k) =
     ''store/AdaptiveGCE_fit_on_toy_fold_id_0''"
  using dirname_file [of "''store/AdaptiveGCE_fit_on_toy_fold_id_0''" "''autoencoder_'' @ str_nat k"]
    str_nat_no_slash [of k] by simp



lemma fit_entry_simps:
  "dirs (fit_entry w ds fid) = dirs w"
  "files (fit_entry w ds fid) = files w"
  "trace (fit_entry w ds fid) = trace w @ [Call_fit (dataset_name ds) fid]"
  "explainer_name (explainer (fit_entry w ds fid)) = fit_name (explainer w) ds fid"
  "fitted (explainer (fit_entry w ds fid)) = fitted (explainer w)"
  "same_settings (explainer w) (explainer (fit_entry w ds fid))"
  by (simp_all add: fit_entry_def same_settings_def)

lemma os_path_exists_cong:
  "dirs w' = dirs w \<Longrightarrow> files w' = files w \<Longrightarrow> os_path_exists w' p = os_path_exists w p"
  by (simp add: os_path_exists_def)

lemma is_dir_cong: "dirs w' = dirs w \<Longrightarrow> is_dir w' d = is_dir w d"
  by (simp add: is_dir_def)

lemma fit_unfold:
  "fit fw oracle ds fid w =
     (if os_path_exists w (fit_uri (explainer w) ds fid)
      then (case load_explainers (fit_entry w ds fid) of
              (Some e, w1) \<Rightarrow> (Some e, w1)
            | (None, w1) \<Rightarrow> (None, w1\<lparr>explainer := (explainer w1)\<lparr>fitted := True\<rparr>\<rparr>))
      else (case os_mkdir (fit_entry w ds fid) (fit_uri (explainer w) ds fid) of
              Inl e \<Rightarrow> (Some e, fit_entry w ds fid)
            | Inr w1 \<Rightarrow>
               (case fit_private fw oracle ds w1 of
                  (Some e, w2) \<Rightarrow> (Some e, w2)
                | (None, w2) \<Rightarrow> (None, w2\<lparr>explainer := (explainer w2)\<lparr>fitted := True\<rparr>\<rparr>))))"
  by (simp add: fit_def Let_def fit_entry_def fit_uri_def os_path_exists_def cong: sum.case_cong)


lemma same_settings_fitted [simp]:
  "same_settings ex (ex'\<lparr>fitted := b\<rparr>) = same_settings ex ex'"
  by (simp add: same_settings_def)



lemma os_mkdir_Inl:
  "\<not> os_path_exists w p \<Longrightarrow> os_mkdir w p = Inl e \<Longrightarrow> \<not> is_dir w (dirname p) \<and> e = FileNotFoundError"
  by (auto simp: os_mkdir_def split: if_splits)




subsection \<open>The loop over the classes\<close>

lemma class_done_simps:
  "dirs (class_done fw cls dl w) = dirs w"
  "same_settings (explainer w) (explainer (class_done fw cls dl w))"
  "explainer_name (explainer (class_done fw cls dl w)) = explainer_name (explainer w)"
  "fitted (explainer (class_done fw cls dl w)) = fitted (explainer w)"
  "checkpoint_path (explainer (class_done fw cls dl w)) k = checkpoint_path (explainer w) k"
  "k \<noteq> cls \<Longrightarrow> autoencoders (explainer (class_done fw cls dl w)) ! k = autoencoders (explainer w) ! k"
  "k \<noteq> cls \<Longrightarrow> optimisers (explainer (class_done fw cls dl w)) ! k = optimisers (explainer w) ! k"
  "length (autoencoders (explainer (class_done fw cls dl w))) = length (autoencoders (explainer w))"
  "length (optimisers (explainer (class_done fw cls dl w))) = length (optimisers (explainer w))"
  "epochs_ae (explainer (class_done fw cls dl w)) = epochs_ae (explainer w)"
  by (simp_all add: class_done_def same_settings_def checkpoint_path_def split: prod.splits)

lemma saves_possible_class_done:
  "saves_possible w \<Longrightarrow> saves_possible (class_done fw cls dl w)"
  by (simp add: saves_possible_def class_done_simps is_dir_def)

lemma class_loop_success_step:
  assumes "saves_possible w"
    and "cls < length (optimisers (explainer w))" "cls < length (autoencoders (explainer w))"
    and "fst (train_class fw (epochs_ae (explainer w)) cls dl
           (autoencoders (explainer w) ! cls) (optimisers (explainer w) ! cls)) = None"
  shows "class_loop fw cls (dl # dls) w = class_loop fw (Suc cls) dls (class_done fw cls dl w)"
proof -
  obtain r1 st1 evs where tc0: "train_class fw (epochs_ae (explainer w)) cls dl
         (autoencoders (explainer w) ! cls) (optimisers (explainer w) ! cls) = (r1, st1, evs)"
    by (metis prod_cases3)
  obtain ae opt where st1: "st1 = (ae, opt)" by (cases st1)
  note tc = tc0 [unfolded st1]
  have r1: "r1 = None" using assms(4) tc by simp
  define w1 where "w1 = w\<lparr>explainer := (explainer w)
                \<lparr>autoencoders := (autoencoders (explainer w))[cls := ae],
                 optimisers := (optimisers (explainer w))[cls := opt]\<rparr>,
               trace := trace w @ evs\<rparr>"
  have cp: "checkpoint_path (explainer w1) cls = checkpoint_path (explainer w) cls"
    by (simp add: w1_def checkpoint_path_def)
  have sv: "save_autoencoder w1 ae cls = Inr (class_done fw cls dl w)"
    using assms(1)
    by (simp add: save_autoencoder_def torch_save_def cp saves_possible_def is_dir_def)
      (simp add: w1_def class_done_def tc)
  show ?thesis
    using class_loop_step [OF assms(2,3) tc, of dls, folded w1_def] r1 sv by simp
qed

lemma class_loop_prefix:
  assumes "saves_possible w"
    and "\<forall>j < length pre. cls + j < length (optimisers (explainer w)) \<and>
           cls + j < length (autoencoders (explainer w)) \<and>
           fst (train_class fw (epochs_ae (explainer w)) (cls + j) (pre ! j)
             (autoencoders (explainer w) ! (cls + j)) (optimisers (explainer w) ! (cls + j))) = None"
  shows "class_loop fw cls (pre @ rest) w =
         class_loop fw (cls + length pre) rest (classes_done fw cls pre w)"
  using assms
proof (induction pre arbitrary: cls w)
  case Nil
  then show ?case by simp
next
  case (Cons dl pre)
  from Cons.prems(2) have h0: "cls < length (optimisers (explainer w))"
    "cls < length (autoencoders (explainer w))"
    "fst (train_class fw (epochs_ae (explainer w)) cls dl
           (autoencoders (explainer w) ! cls) (optimisers (explainer w) ! cls)) = None"
    by force+
  let ?w = "class_done fw cls dl w"
  have step: "class_loop fw cls ((dl # pre) @ rest) w = class_loop fw (Suc cls) (pre @ rest) ?w"
    using class_loop_success_step [OF Cons.prems(1) h0] by simp
  have sp: "saves_possible ?w" by (rule saves_possible_class_done [OF Cons.prems(1)])
  have rest: "\<forall>j < length pre. Suc cls + j < length (optimisers (explainer ?w)) \<and>
           Suc cls + j < length (autoencoders (explainer ?w)) \<and>
           fst (train_class fw (epochs_ae (explainer ?w)) (Suc cls + j) (pre ! j)
             (autoencoders (explainer ?w) ! (Suc cls + j)) (optimisers (explainer ?w) ! (Suc cls + j))) = None"
  proof (intro allI impI)
    fix j assume j: "j < length pre"
    then have "Suc j < length (dl # pre)" by simp
    from Cons.prems(2) [rule_format, OF this]
    show "Suc cls + j < length (optimisers (explainer ?w)) \<and>
           Suc cls + j < length (autoencoders (explainer ?w)) \<and>
           fst (train_class fw (epochs_ae (explainer ?w)) (Suc cls + j) (pre ! j)
             (autoencoders (explainer ?w) ! (Suc cls + j)) (optimisers (explainer ?w) ! (Suc cls + j))) = None"
      by (simp add: class_done_simps)
  qed
  show ?case
    unfolding step using Cons.IH [OF sp rest] by simp
qed


lemma checkpoint_file_no_slash: "CHR ''/'' \<notin> set (''autoencoder_'' @ str_nat k)"
  using str_nat_no_slash [of k] by simp

lemma checkpoint_path_inj:
  "checkpoint_path ex k = checkpoint_path ex j \<Longrightarrow> k = j"
proof -
  assume eq: "checkpoint_path ex k = checkpoint_path ex j"
  let ?X = "path_join (explainer_store_path ex) (explainer_name ex)"
  have "path_join ?X (''autoencoder_'' @ str_nat n) =
        (if ?X = [] \<or> last ?X = CHR ''/'' then ?X else ?X @ ''/'') @ ''autoencoder_'' @ str_nat n"
    for n by (simp add: path_join_def)
  with eq have "str_nat k = str_nat j" by (simp add: checkpoint_path_def)
  then show ?thesis by (rule str_nat_inj)
qed

lemma checkpoint_path_form:
  assumes "explainer_name ex \<noteq> []" "last (explainer_name ex) \<noteq> CHR ''/''"
  shows "checkpoint_path ex k =
           path_join (explainer_store_path ex) (explainer_name ex) @ ''/'' @ ''autoencoder_'' @ str_nat k"
    and "dirname (checkpoint_path ex k) = path_join (explainer_store_path ex) (explainer_name ex)"
    and "path_join (explainer_store_path ex) (explainer_name ex) \<noteq> []"
    and "last (path_join (explainer_store_path ex) (explainer_name ex)) \<noteq> CHR ''/''"
proof -
  let ?X = "path_join (explainer_store_path ex) (explainer_name ex)"
  from path_join_last [OF assms, of "explainer_store_path ex"]
  show X: "?X \<noteq> []" and l: "last ?X \<noteq> CHR ''/''" using assms(2) by simp_all
  show f: "checkpoint_path ex k = ?X @ ''/'' @ ''autoencoder_'' @ str_nat k"
    unfolding checkpoint_path_def
    by (rule path_join_file [OF X l _ checkpoint_file_no_slash]) simp
  show "dirname (checkpoint_path ex k) = ?X"
    unfolding f by (rule dirname_file [OF X l checkpoint_file_no_slash])
qed

lemma train_class_events:
  "train_class fw n cls dl ae opt = (r, st, evs) \<Longrightarrow> \<forall>ev \<in> set evs. event_class ev = Some cls"
proof -
  assume "train_class fw n cls dl ae opt = (r, st, evs)"
  from epoch_loop_events [OF this [unfolded train_class_def]]
  have a: "list_all is_Epoch_log evs" and b: "\<forall>c ep ls. Epoch_log c ep ls \<in> set evs \<longrightarrow> c = cls"
    by auto
  show ?thesis
  proof
    fix ev assume ev: "ev \<in> set evs"
    with a have "is_Epoch_log ev" by (simp add: list_all_iff)
    then obtain c ep ls where "ev = Epoch_log c ep ls" by (cases ev) auto
    with b ev show "event_class ev = Some cls" by auto
  qed
qed

lemma map_of_filter_neq:
  "p \<noteq> q \<Longrightarrow> map_of (filter (\<lambda>(k, _). k \<noteq> q) fs) p = map_of fs p"
  by (induction fs) auto

lemma class_done_files:
  "map_of (files (class_done fw cls dl w)) p =
     (if p = checkpoint_path (explainer w) cls
      then Some (state_dict (fst (fst (snd (train_class fw (epochs_ae (explainer w)) cls dl
             (autoencoders (explainer w) ! cls) (optimisers (explainer w) ! cls))))))
      else map_of (files w) p)"
  by (simp add: class_done_def map_of_filter_neq split: prod.splits)

lemma class_done_trace:
  "\<exists>evs. trace (class_done fw cls dl w) = trace w @ evs \<and>
         (\<forall>ev \<in> set evs. event_class ev = Some cls)"
proof -
  obtain r1 st1 evs where tc: "train_class fw (epochs_ae (explainer w)) cls dl
         (autoencoders (explainer w) ! cls) (optimisers (explainer w) ! cls) = (r1, st1, evs)"
    by (metis prod_cases3)
  have "trace (class_done fw cls dl w) = trace w @ evs"
    by (simp add: class_done_def tc split: prod.splits)
  with train_class_events [OF tc] show ?thesis by blast
qed

lemma classes_done_frame:
  "dirs (classes_done fw cls pre w) = dirs w \<and>
   same_settings (explainer w) (explainer (classes_done fw cls pre w)) \<and>
   explainer_name (explainer (classes_done fw cls pre w)) = explainer_name (explainer w) \<and>
   fitted (explainer (classes_done fw cls pre w)) = fitted (explainer w) \<and>
   (\<forall>k. k < cls \<or> cls + length pre \<le> k \<longrightarrow>
      autoencoders (explainer (classes_done fw cls pre w)) ! k = autoencoders (explainer w) ! k \<and>
      optimisers (explainer (classes_done fw cls pre w)) ! k = optimisers (explainer w) ! k)"
proof (induction pre arbitrary: cls w)
  case Nil
  show ?case by (simp add: same_settings_refl)
next
  case (Cons dl pre)
  let ?w = "class_done fw cls dl w"
  note ih = Cons.IH [of "Suc cls" ?w]
  have "same_settings (explainer w) (explainer (classes_done fw (Suc cls) pre ?w))"
    using ih class_done_simps(2) [of w fw cls dl] same_settings_trans by blast
  moreover have "\<forall>k. k < cls \<or> cls + length (dl # pre) \<le> k \<longrightarrow>
      autoencoders (explainer (classes_done fw (Suc cls) pre ?w)) ! k = autoencoders (explainer w) ! k \<and>
      optimisers (explainer (classes_done fw (Suc cls) pre ?w)) ! k = optimisers (explainer w) ! k"
  proof (intro allI impI)
    fix k assume k: "k < cls \<or> cls + length (dl # pre) \<le> k"
    then have k1: "k < Suc cls \<or> Suc cls + length pre \<le> k" and k2: "k \<noteq> cls" by auto
    from ih k1 have "autoencoders (explainer (classes_done fw (Suc cls) pre ?w)) ! k
          = autoencoders (explainer ?w) ! k \<and>
        optimisers (explainer (classes_done fw (Suc cls) pre ?w)) ! k = optimisers (explainer ?w) ! k"
      by blast
    then show "autoencoders (explainer (classes_done fw (Suc cls) pre ?w)) ! k = autoencoders (explainer w) ! k \<and>
      optimisers (explainer (classes_done fw (Suc cls) pre ?w)) ! k = optimisers (explainer w) ! k"
      using k2 by (simp add: class_done_simps)
  qed
  ultimately show ?case using ih by (simp add: class_done_simps)
qed


lemma classes_done_checkpoint_path:
  "checkpoint_path (explainer (classes_done fw cls pre w)) k = checkpoint_path (explainer w) k"
  using classes_done_frame [of fw cls pre w]
  by (simp add: checkpoint_path_def same_settings_def)

lemma classes_done_files_other:
  "(\<forall>j < length pre. p \<noteq> checkpoint_path (explainer w) (cls + j)) \<Longrightarrow>
     map_of (files (classes_done fw cls pre w)) p = map_of (files w) p"
proof (induction pre arbitrary: cls w)
  case Nil
  show ?case by simp
next
  case (Cons dl pre)
  let ?w = "class_done fw cls dl w"
  from Cons.prems have p0: "p \<noteq> checkpoint_path (explainer w) cls" by force
  have "\<forall>j < length pre. p \<noteq> checkpoint_path (explainer ?w) (Suc cls + j)"
  proof (intro allI impI)
    fix j assume "j < length pre"
    then have "Suc j < length (dl # pre)" by simp
    from Cons.prems [rule_format, OF this]
    show "p \<noteq> checkpoint_path (explainer ?w) (Suc cls + j)"
      by (simp add: class_done_simps)
  qed
  from Cons.IH [OF this] have "map_of (files (classes_done fw (Suc cls) pre ?w)) p = map_of (files ?w) p" .
  also have "\<dots> = map_of (files w) p" using p0 by (simp add: class_done_files)
  finally show ?case by simp
qed

lemma classes_done_files_saved:
  "j < length pre \<Longrightarrow>
     map_of (files (classes_done fw cls pre w)) (checkpoint_path (explainer w) (cls + j)) =
       Some (state_dict (fst (fst (snd (train_class fw (epochs_ae (explainer w)) (cls + j) (pre ! j)
          (autoencoders (explainer w) ! (cls + j)) (optimisers (explainer w) ! (cls + j)))))))"
proof (induction pre arbitrary: cls w j)
  case Nil
  then show ?case by simp
next
  case (Cons dl pre)
  let ?w = "class_done fw cls dl w"
  show ?case
  proof (cases j)
    case 0
    have "\<forall>i < length pre. checkpoint_path (explainer w) cls \<noteq> checkpoint_path (explainer ?w) (Suc cls + i)"
    proof (intro allI impI notI)
      fix i assume "checkpoint_path (explainer w) cls = checkpoint_path (explainer ?w) (Suc cls + i)"
      then have "checkpoint_path (explainer w) cls = checkpoint_path (explainer w) (Suc cls + i)"
        by (simp add: class_done_simps)
      from checkpoint_path_inj [OF this] show False by simp
    qed
    from classes_done_files_other [OF this]
    have "map_of (files (classes_done fw (Suc cls) pre ?w)) (checkpoint_path (explainer w) cls)
          = map_of (files ?w) (checkpoint_path (explainer w) cls)" .
    then show ?thesis using 0 by (simp add: class_done_files)
  next
    case (Suc j')
    with Cons.prems have j': "j' < length pre" by simp
    from Cons.IH [OF j', of "Suc cls" ?w] show ?thesis
      using Suc by (simp add: class_done_simps)
  qed
qed

lemma classes_done_trace:
  "\<exists>evs. trace (classes_done fw cls pre w) = trace w @ evs \<and>
         (\<forall>ev \<in> set evs. \<exists>k. event_class ev = Some k \<and> cls \<le> k \<and> k < cls + length pre)"
proof (induction pre arbitrary: cls w)
  case Nil
  show ?case by simp
next
  case (Cons dl pre)
  let ?w = "class_done fw cls dl w"
  from class_done_trace [of fw cls dl w] obtain ev1 where
    e1: "trace ?w = trace w @ ev1" "\<forall>ev \<in> set ev1. event_class ev = Some cls" by blast
  from Cons.IH [of "Suc cls" ?w] obtain ev2 where
    e2: "trace (classes_done fw (Suc cls) pre ?w) = trace ?w @ ev2"
      "\<forall>ev \<in> set ev2. \<exists>k. event_class ev = Some k \<and> Suc cls \<le> k \<and> k < Suc cls + length pre"
    by blast
  have "trace (classes_done fw cls (dl # pre) w) = trace w @ (ev1 @ ev2)"
    using e1 e2 by simp
  moreover have "\<forall>ev \<in> set (ev1 @ ev2). \<exists>k. event_class ev = Some k \<and> cls \<le> k \<and>
      k < cls + length (dl # pre)"
  proof
    fix ev assume "ev \<in> set (ev1 @ ev2)"
    then consider "ev \<in> set ev1" | "ev \<in> set ev2" by auto
    then show "\<exists>k. event_class ev = Some k \<and> cls \<le> k \<and> k < cls + length (dl # pre)"
    proof cases
      case 1
      with e1(2) show ?thesis by auto
    next
      case 2
      with e2(2) obtain k where "event_class ev = Some k" "Suc cls \<le> k" "k < Suc cls + length pre"
        by blast
      then show ?thesis by auto
    qed
  qed
  ultimately show ?case by blast
qed

lemma class_loop_raise_step:
  assumes "cls < length (optimisers (explainer w))" "cls < length (autoencoders (explainer w))"
    and "train_class fw (epochs_ae (explainer w)) cls dl
           (autoencoders (explainer w) ! cls) (optimisers (explainer w) ! cls) = (Some e, (ae, opt), evs)"
  shows "class_loop fw cls (dl # dls) w =
     (Some e, w\<lparr>explainer := (explainer w)
                  \<lparr>autoencoders := (autoencoders (explainer w))[cls := ae],
                   optimisers := (optimisers (explainer w))[cls := opt]\<rparr>,
                 trace := trace w @ evs\<rparr>)"
  using class_loop_step [OF assms, of dls] by (simp add: Let_def)

subsection \<open>Fitting twice, explaining lazily\<close>







subsection \<open>A raise inside the training loop\<close>

lemma fit_uri_last:
  "fit_uri ex ds fid \<noteq> [] \<and> last (fit_uri ex ds fid) \<noteq> CHR ''/''"
  unfolding fit_uri_def
  using path_join_last [of "fit_name ex ds fid" "explainer_store_path ex"] fit_name_last [of ex ds fid]
  by simp

lemma not_all_slashes: "p \<noteq> [] \<Longrightarrow> last p \<noteq> CHR ''/'' \<Longrightarrow> \<not> list_all (\<lambda>c. c = CHR ''/'') p"
proof
  assume "p \<noteq> []" "last p \<noteq> CHR ''/''" "list_all (\<lambda>c. c = CHR ''/'') p"
  then have "last p = CHR ''/''" by (simp add: list_all_iff)
  with \<open>last p \<noteq> CHR ''/''\<close> show False by simp
qed

lemma fs_wellformedD:
  "fs_wellformed w \<Longrightarrow> p \<in> set (dirs w) \<or> p \<in> fst ` set (files w) \<Longrightarrow> is_dir w (dirname p)"
  by (auto simp: fs_wellformed_def list_all_iff)

lemma fresh_checkpoints:
  assumes "fs_wellformed w" "\<not> os_path_exists w (fit_uri (explainer w) ds fid)"
    and "explainer_name ex = fit_name (explainer w) ds fid"
    and "explainer_store_path ex = explainer_store_path (explainer w)"
  shows "checkpoint_path ex k \<notin> set (dirs w)"
    and "checkpoint_path ex k \<notin> fst ` set (files w)"
    and "checkpoint_path ex k \<noteq> fit_uri (explainer w) ds fid"
    and "dirname (checkpoint_path ex k) = fit_uri (explainer w) ds fid"
proof -
  let ?U = "fit_uri (explainer w) ds fid"
  have n: "explainer_name ex \<noteq> []" "last (explainer_name ex) \<noteq> CHR ''/''"
    using fit_name_last [of "explainer w" ds fid] assms(3) by simp_all
  have U: "path_join (explainer_store_path ex) (explainer_name ex) = ?U"
    by (simp add: fit_uri_def assms(3,4))
  note f1 = checkpoint_path_form(1) [OF n, of k, unfolded U]
  note f2 = checkpoint_path_form(2) [OF n, of k, unfolded U]
  show d: "dirname (checkpoint_path ex k) = ?U" by (rule f2)
  show "checkpoint_path ex k \<noteq> ?U" unfolding f1 by simp
  have nd: "\<not> is_dir w ?U"
    using assms(2) not_all_slashes [of ?U] fit_uri_last [of "explainer w" ds fid]
    by (simp add: is_dir_def os_path_exists_def)
  show "checkpoint_path ex k \<notin> set (dirs w)"
    using fs_wellformedD [OF assms(1), of "checkpoint_path ex k"] nd d by auto
  show "checkpoint_path ex k \<notin> fst ` set (files w)"
    using fs_wellformedD [OF assms(1), of "checkpoint_path ex k"] nd d by auto
qed

lemma saves_possible_fresh:
  assumes "fs_wellformed w" "\<not> os_path_exists w (fit_uri (explainer w) ds fid)"
  shows "saves_possible ((fit_entry w ds fid)\<lparr>dirs := fit_uri (explainer w) ds fid # dirs w\<rparr>)"
proof -
  let ?w1 = "(fit_entry w ds fid)\<lparr>dirs := fit_uri (explainer w) ds fid # dirs w\<rparr>"
  have e: "explainer_name (explainer ?w1) = fit_name (explainer w) ds fid"
    "explainer_store_path (explainer ?w1) = explainer_store_path (explainer w)"
    by (simp_all add: fit_entry_def)
  note f = fresh_checkpoints [OF assms e]
  show ?thesis
    unfolding saves_possible_def using f by (simp add: is_dir_def)
qed

lemma fit_fresh_unfold:
  assumes "\<not> os_path_exists w (fit_uri (explainer w) ds fid)"
    and "is_dir w (dirname (fit_uri (explainer w) ds fid))"
    and "transform_data (fold_id (explainer w)) ds = Inr dls"
  shows "fit fw orc ds fid w =
     (case class_loop fw 0 dls ((fit_entry w ds fid)\<lparr>dirs := fit_uri (explainer w) ds fid # dirs w\<rparr>) of
        (Some e, w2) \<Rightarrow> (Some e, w2)
      | (None, w2) \<Rightarrow> (None, w2\<lparr>explainer := (explainer w2)\<lparr>fitted := True\<rparr>\<rparr>))"
proof -
  let ?u = "fit_uri (explainer w) ds fid"
  let ?w0 = "fit_entry w ds fid"
  let ?w1 = "?w0\<lparr>dirs := ?u # dirs w\<rparr>"
  have ne: "\<not> os_path_exists ?w0 ?u"
    using assms(1) os_path_exists_cong [of ?w0 w ?u] by (simp add: fit_entry_simps)
  have d: "is_dir ?w0 (dirname ?u)"
    using assms(2) is_dir_cong [of ?w0 w] by (simp add: fit_entry_simps)
  have mk: "os_mkdir ?w0 ?u = Inr ?w1"
    using ne d by (simp add: os_mkdir_def fit_entry_simps)
  have fp: "fit_private fw orc ds ?w1 = class_loop fw 0 dls ?w1"
    using assms(3) by (simp add: fit_private_def fit_entry_def)
  show ?thesis
    using assms(1) by (simp add: fit_unfold mk fp)
qed


lemma checkpoint_path_cong:
  "explainer_name ex' = explainer_name ex \<Longrightarrow> explainer_store_path ex' = explainer_store_path ex \<Longrightarrow>
     checkpoint_path ex' k = checkpoint_path ex k"
  by (simp add: checkpoint_path_def)

text \<open>
  C7. Let \<open>fit\<close> start without its checkpoint directory (in a well-formed file system
  with the store directory there), let the training of the classes before \<open>c\<close> go
  through and let the training loop raise while training class \<open>c\<close>. Then \<open>fit\<close> raises
  the same exception; the fitted flag is as it was; the checkpoint directory is there; the
  checkpoint of each class before \<open>c\<close> is on disk, holding that class's trained weights;
  there is no checkpoint for \<open>c\<close> or any later class; the autoencoders and optimisers of
  the later classes are untouched; and no epoch of a later class was printed.
\<close>

theorem fit_raise_while_training:
  assumes wf: "fs_wellformed w"
    and ne: "\<not> os_path_exists w (fit_uri (explainer w) ds fid)"
    and pd: "is_dir w (dirname (fit_uri (explainer w) ds fid))"
    and td: "transform_data (fold_id (explainer w)) ds = Inr dls"
    and c: "c < length dls" "c < length (autoencoders (explainer w))"
      "c < length (optimisers (explainer w))"
    and ok: "\<forall>k < c. fst (train_class fw (epochs_ae (explainer w)) k (dls ! k)
        (autoencoders (explainer w) ! k) (optimisers (explainer w) ! k)) = None"
    and raise: "fst (train_class fw (epochs_ae (explainer w)) c (dls ! c)
        (autoencoders (explainer w) ! c) (optimisers (explainer w) ! c)) = Some e"
  shows "\<exists>w'. fit fw orc ds fid w = (Some e, w') \<and>
     fitted (explainer w') = fitted (explainer w) \<and>
     dirs w' = fit_uri (explainer w) ds fid # dirs w \<and>
     (\<forall>k < c. map_of (files w') (checkpoint_path (explainer w') k) =
        Some (state_dict (fst (fst (snd (train_class fw (epochs_ae (explainer w)) k (dls ! k)
          (autoencoders (explainer w) ! k) (optimisers (explainer w) ! k))))))) \<and>
     (\<forall>k \<ge> c. map_of (files w') (checkpoint_path (explainer w') k) = None) \<and>
     (\<forall>k > c. autoencoders (explainer w') ! k = autoencoders (explainer w) ! k \<and>
        optimisers (explainer w') ! k = optimisers (explainer w) ! k) \<and>
     (\<exists>evs. trace w' = trace w @ Call_fit (dataset_name ds) fid # evs \<and>
        (\<forall>ev \<in> set evs. \<exists>k. event_class ev = Some k \<and> k \<le> c))"
proof -
  let ?U = "fit_uri (explainer w) ds fid"
  define w1 where "w1 = (fit_entry w ds fid)\<lparr>dirs := ?U # dirs w\<rparr>"
  define pre where "pre = take c dls"
  define wp where "wp = classes_done fw 0 pre w1"
  have w1s: "autoencoders (explainer w1) = autoencoders (explainer w)"
    "optimisers (explainer w1) = optimisers (explainer w)"
    "epochs_ae (explainer w1) = epochs_ae (explainer w)"
    "fitted (explainer w1) = fitted (explainer w)" "dirs w1 = ?U # dirs w"
    "files w1 = files w" "trace w1 = trace w @ [Call_fit (dataset_name ds) fid]"
    "explainer_name (explainer w1) = fit_name (explainer w) ds fid"
    "explainer_store_path (explainer w1) = explainer_store_path (explainer w)"
    by (simp_all add: w1_def fit_entry_def)
  have sp: "saves_possible w1" unfolding w1_def by (rule saves_possible_fresh [OF wf ne])
  have lp: "length pre = c" using c(1) by (simp add: pre_def)
  have dls: "pre @ dls ! c # drop (Suc c) dls = dls"
    using c(1) by (simp add: pre_def Cons_nth_drop_Suc)
  have hyp: "\<forall>j < length pre. 0 + j < length (optimisers (explainer w1)) \<and>
           0 + j < length (autoencoders (explainer w1)) \<and>
           fst (train_class fw (epochs_ae (explainer w1)) (0 + j) (pre ! j)
             (autoencoders (explainer w1) ! (0 + j)) (optimisers (explainer w1) ! (0 + j))) = None"
    using ok c by (simp add: lp w1s pre_def)
  from class_loop_prefix [OF sp hyp, of "dls ! c # drop (Suc c) dls"]
  have loop: "class_loop fw 0 dls w1 = class_loop fw c (dls ! c # drop (Suc c) dls) wp"
    by (simp add: dls lp wp_def)
  note fr = classes_done_frame [of fw 0 pre w1, folded wp_def]
  have wps: "autoencoders (explainer wp) ! c = autoencoders (explainer w) ! c"
    "optimisers (explainer wp) ! c = optimisers (explainer w) ! c"
    "epochs_ae (explainer wp) = epochs_ae (explainer w)"
    "length (autoencoders (explainer wp)) = length (autoencoders (explainer w))"
    "length (optimisers (explainer wp)) = length (optimisers (explainer w))"
    using fr by (simp_all add: lp w1s [symmetric] same_settings_def)
  obtain st evc where tc0: "train_class fw (epochs_ae (explainer w)) c (dls ! c)
        (autoencoders (explainer w) ! c) (optimisers (explainer w) ! c) = (Some e, st, evc)"
    using raise by (metis fst_conv prod_cases3)
  obtain ae opt where st: "st = (ae, opt)" by (cases st)
  define w' where "w' = wp\<lparr>explainer := (explainer wp)
                  \<lparr>autoencoders := (autoencoders (explainer wp))[c := ae],
                   optimisers := (optimisers (explainer wp))[c := opt]\<rparr>,
                 trace := trace wp @ evc\<rparr>"
  have "class_loop fw c (dls ! c # drop (Suc c) dls) wp = (Some e, w')"
    unfolding w'_def
    by (rule class_loop_raise_step) (simp_all add: wps c tc0 [unfolded st])
  with loop have cl: "class_loop fw 0 dls w1 = (Some e, w')" by simp
  have fit: "fit fw orc ds fid w = (Some e, w')"
    using fit_fresh_unfold [OF ne pd td, of fw orc] cl by (simp add: w1_def)
  have cp: "checkpoint_path (explainer w') k = checkpoint_path (explainer w1) k" for k
    by (rule checkpoint_path_cong) (use fr in \<open>simp_all add: w'_def same_settings_def\<close>)
  have fw': "files w' = files wp" by (simp add: w'_def)
  have p1: "fitted (explainer w') = fitted (explainer w)"
    using fr by (simp add: w'_def w1s)
  have p2: "dirs w' = ?U # dirs w"
    using fr by (simp add: w'_def w1s)
  have p3: "\<forall>k < c. map_of (files w') (checkpoint_path (explainer w') k) =
        Some (state_dict (fst (fst (snd (train_class fw (epochs_ae (explainer w)) k (dls ! k)
          (autoencoders (explainer w) ! k) (optimisers (explainer w) ! k))))))"
  proof (intro allI impI)
    fix k assume k: "k < c"
    then have "k < length pre" by (simp add: lp)
    from classes_done_files_saved [OF this, of fw 0 w1] k
    show "map_of (files w') (checkpoint_path (explainer w') k) =
        Some (state_dict (fst (fst (snd (train_class fw (epochs_ae (explainer w)) k (dls ! k)
          (autoencoders (explainer w) ! k) (optimisers (explainer w) ! k))))))"
      unfolding cp fw' by (simp add: wp_def w1s pre_def)
  qed
  have p4: "\<forall>k \<ge> c. map_of (files w') (checkpoint_path (explainer w') k) = None"
  proof (intro allI impI)
    fix k assume k: "c \<le> k"
    have "\<forall>j < length pre. checkpoint_path (explainer w1) k \<noteq> checkpoint_path (explainer w1) (0 + j)"
    proof (intro allI impI notI)
      fix j assume "j < length pre"
        and "checkpoint_path (explainer w1) k = checkpoint_path (explainer w1) (0 + j)"
      then have "k = j" "j < c" using checkpoint_path_inj [of "explainer w1" k j] by (simp_all add: lp)
      with k show False by simp
    qed
    from classes_done_files_other [OF this, of fw]
    have "map_of (files wp) (checkpoint_path (explainer w1) k) =
          map_of (files w) (checkpoint_path (explainer w1) k)"
      by (simp add: wp_def w1s)
    also have "\<dots> = None"
      using fresh_checkpoints(2) [OF wf ne w1s(8) w1s(9), of k]
      by (simp add: map_of_eq_None_iff)
    finally show "map_of (files w') (checkpoint_path (explainer w') k) = None"
      unfolding cp fw' .
  qed
  have p5: "\<forall>k > c. autoencoders (explainer w') ! k = autoencoders (explainer w) ! k \<and>
        optimisers (explainer w') ! k = optimisers (explainer w) ! k"
  proof (intro allI impI)
    fix k assume k: "c < k"
    then have "k < 0 \<or> 0 + length pre \<le> k" by (simp add: lp)
    with fr have "autoencoders (explainer wp) ! k = autoencoders (explainer w1) ! k \<and>
      optimisers (explainer wp) ! k = optimisers (explainer w1) ! k" by blast
    then show "autoencoders (explainer w') ! k = autoencoders (explainer w) ! k \<and>
        optimisers (explainer w') ! k = optimisers (explainer w) ! k"
      using k by (simp add: w'_def w1s)
  qed
  from classes_done_trace [of fw 0 pre w1] obtain ev0 where
    e0: "trace wp = trace w1 @ ev0"
      "\<forall>ev \<in> set ev0. \<exists>k. event_class ev = Some k \<and> 0 \<le> k \<and> k < 0 + length pre"
    unfolding wp_def by blast
  have ec: "\<forall>ev \<in> set evc. event_class ev = Some c"
    by (rule train_class_events [OF tc0])
  have "trace w' = trace w @ Call_fit (dataset_name ds) fid # (ev0 @ evc)"
    by (simp add: w'_def e0 w1s)
  moreover have "\<forall>ev \<in> set (ev0 @ evc). \<exists>k. event_class ev = Some k \<and> k \<le> c"
    using e0(2) ec by (auto simp: lp)
  ultimately have p6: "\<exists>evs. trace w' = trace w @ Call_fit (dataset_name ds) fid # evs \<and>
        (\<forall>ev \<in> set evs. \<exists>k. event_class ev = Some k \<and> k \<le> c)" by blast
  from fit p1 p2 p3 p4 p5 p6 show ?thesis by blast
qed

subsection \<open>The example explainer\<close>

lemma example_transform_loaders: "transform_data 0 example_dataset = Inr example_loaders"
  by (simp add: example_transform_data example_loaders_def)

lemma example_world_simps:
  "fold_id (explainer (example_world n)) = 0"
  "epochs_ae (explainer (example_world n)) = 1"
  "fitted (explainer (example_world n)) = False"
  "length (autoencoders (explainer (example_world n))) = n"
  "length (optimisers (explainer (example_world n))) = n"
  "dirs (example_world n) = [''store'']"
  "files (example_world n) = []"
  "trace (example_world n) = []"
  by (simp_all add: example_world_def)

lemma example_wellformed: "fs_wellformed (example_world n)"
proof -
  have "dirname ''store'' = ''''" by code_simp
  then show ?thesis by (simp add: fs_wellformed_def example_world_simps is_dir_def)
qed

lemma example_fresh:
  "\<not> os_path_exists (example_world n) (fit_uri (explainer (example_world n)) example_dataset 0)"
  by (simp add: example_uri os_path_exists_def example_world_simps)

lemma example_parent:
  "is_dir (example_world n) (dirname (fit_uri (explainer (example_world n)) example_dataset 0))"
  by (simp add: example_uri example_dirname is_dir_def example_world_simps)


lemma failing_train_class:
  "fst (train_class failing_framework 1 cls (example_loaders ! 0) ae opt) = None"
  "fst (train_class failing_framework 1 cls (example_loaders ! 1) ae opt)
     = Some (FrameworkError ''nan'')"
  by (simp_all add: example_loaders_def train_class_def loader_items_def failing_framework_def
      example_framework_def train_batch_def GAE_encode_def forward_def forward_stage1_def
      forward_stage2_def forward_stage3_def identity_gcn_def dropout_def leaky_relu_def Let_def)











theorem fit_raise_while_training_witness:
  "fs_wellformed (example_world 2) \<and>
   \<not> os_path_exists (example_world 2) (fit_uri (explainer (example_world 2)) example_dataset 0) \<and>
   is_dir (example_world 2) (dirname (fit_uri (explainer (example_world 2)) example_dataset 0)) \<and>
   transform_data (fold_id (explainer (example_world 2))) example_dataset = Inr example_loaders \<and>
   fst (train_class failing_framework (epochs_ae (explainer (example_world 2))) 0 (example_loaders ! 0)
          (autoencoders (explainer (example_world 2)) ! 0)
          (optimisers (explainer (example_world 2)) ! 0)) = None \<and>
   fst (train_class failing_framework (epochs_ae (explainer (example_world 2))) 1 (example_loaders ! 1)
          (autoencoders (explainer (example_world 2)) ! 1)
          (optimisers (explainer (example_world 2)) ! 1)) = Some (FrameworkError ''nan'') \<and>
   (\<exists>w'. fit failing_framework () example_dataset 0 (example_world 2)
            = (Some (FrameworkError ''nan''), w') \<and>
         \<not> fitted (explainer w') \<and>
         dirs w' = [''store/AdaptiveGCE_fit_on_toy_fold_id_0'', ''store''] \<and>
         map_of (files w') (checkpoint_path (explainer w') 1) = None)"
proof -
  let ?W = "example_world 2"
  have td: "transform_data (fold_id (explainer ?W)) example_dataset = Inr example_loaders"
    by (simp add: example_world_simps example_transform_loaders)
  have c: "1 < length example_loaders" "1 < length (autoencoders (explainer ?W))"
    "1 < length (optimisers (explainer ?W))"
    by (simp_all add: example_loaders_def example_world_simps)
  have h0: "fst (train_class failing_framework (epochs_ae (explainer ?W)) 0 (example_loaders ! 0)
          (autoencoders (explainer ?W) ! 0) (optimisers (explainer ?W) ! 0)) = None"
    using failing_train_class(1) by (simp add: example_world_simps)
  have ok: "\<forall>k < 1. fst (train_class failing_framework (epochs_ae (explainer ?W)) k (example_loaders ! k)
          (autoencoders (explainer ?W) ! k) (optimisers (explainer ?W) ! k)) = None"
    using h0 by simp
  have h1: "fst (train_class failing_framework (epochs_ae (explainer ?W)) 1 (example_loaders ! 1)
          (autoencoders (explainer ?W) ! 1) (optimisers (explainer ?W) ! 1))
       = Some (FrameworkError ''nan'')"
    using failing_train_class(2) by (simp add: example_world_simps)
  from fit_raise_while_training [OF example_wellformed example_fresh example_parent td c ok h1,
      of "()"]
  obtain w' where "fit failing_framework () example_dataset 0 ?W = (Some (FrameworkError ''nan''), w')"
    "fitted (explainer w') = fitted (explainer ?W)"
    "dirs w' = fit_uri (explainer ?W) example_dataset 0 # dirs ?W"
    "\<forall>k \<ge> 1. map_of (files w') (checkpoint_path (explainer w') k) = None"
    by blast
  then have "\<exists>w'. fit failing_framework () example_dataset 0 ?W = (Some (FrameworkError ''nan''), w') \<and>
         \<not> fitted (explainer w') \<and>
         dirs w' = [''store/AdaptiveGCE_fit_on_toy_fold_id_0'', ''store''] \<and>
         map_of (files w') (checkpoint_path (explainer w') 1) = None"
    by (auto simp: example_world_simps example_uri)
  with example_wellformed example_fresh example_parent td h0 h1 show ?thesis by blast
qed

subsection \<open>Node features and the training loop\<close>
















subsection \<open>Dropout and the training attribute\<close>

lemma epoch_loop_training:
  "training (encoder (fst (fst (snd (epoch_loop fw cls dl epochs st))))) =
     training (encoder (fst st))"
proof (induction epochs arbitrary: st)
  case Nil
  show ?case by simp
next
  case (Cons ep eps)
  obtain rb stb lb where b: "batch_loop fw cls ep 0 (loader_items fw cls ep dl) st [] = (rb, stb, lb)"
    by (metis prod_cases3)
  from batch_loop_training [OF b] have t: "training (encoder (fst stb)) = training (encoder (fst st))"
    by simp
  show ?case
  proof (cases rb)
    case (Some e)
    with b t show ?thesis by simp
  next
    case None
    obtain r2 st2 ev2 where e2: "epoch_loop fw cls dl eps stb = (r2, st2, ev2)"
      by (metis prod_cases3)
    from Cons.IH [of stb] e2 have "training (encoder (fst st2)) = training (encoder (fst stb))"
      by simp
    with b None e2 t show ?thesis by simp
  qed
qed

text \<open>
  C8 (as stated) fails: the flag that \<open>forward\<close> reads is the module's own attribute
  \<open>training\<close>, which the framework's \<open>train()\<close> on the enclosing autoencoder sets. An
  encoder fresh from its constructor does not drop anything; after \<open>train()\<close> on the
  autoencoder around it, the same encoder with the same draws returns a different
  embedding.
\<close>

theorem dropout_flag_counterexample:
  "training (encoder (GAE_init (GCNEncoder_init 1 64 0 0 0))) = False \<and>
   GAE_encode identity_gcn (\<lambda>i j. False) (\<lambda>i j. False)
      (GAE_init (GCNEncoder_init 1 64 0 0 0)) [[1]] ([], []) [] = Inr [[tanh 1]] \<and>
   training (encoder (Module_train True (GAE_init (GCNEncoder_init 1 64 0 0 0)))) = True \<and>
   GAE_encode identity_gcn (\<lambda>i j. False) (\<lambda>i j. False)
      (Module_train True (GAE_init (GCNEncoder_init 1 64 0 0 0))) [[1]] ([], []) [] = Inr [[0]] \<and>
   tanh (1::real) \<noteq> 0"
  by (simp add: GAE_init_def GCNEncoder_init_def Module_train_def GAE_encode_def forward_def
      forward_stage1_def forward_stage2_def forward_stage3_def identity_gcn_def dropout_def
      leaky_relu_def)

text \<open>
  C8 (amended). In \<open>forward\<close>, dropout after each of the first two convolutions is applied
  if and only if the encoder's attribute \<open>training\<close> is true. The attribute is false after
  the constructor, \<open>set_training\<close> assigns it, wrapping the encoder in an autoencoder leaves
  it, and the framework's \<open>train(mode)\<close> on the enclosing autoencoder assigns it \<open>mode\<close>.
  The training loop calls \<open>train()\<close> on the class's autoencoder before the first epoch,
  and the attribute is still true when the loop is left.
\<close>

theorem dropout_follows_training_attribute:
  "forward_stage1 gcn keep1 enc x ei ew =
     (case gcn (conv1 enc) x ei ew of
        Inl e \<Rightarrow> Inl e
      | Inr x1 \<Rightarrow> Inr (if training enc then dropout keep1 0.2 True (leaky_relu 0.2 x1)
                      else leaky_relu 0.2 x1)) \<and>
   forward_stage2 gcn keep2 enc x' ei ew =
     (case gcn (conv2 enc) x' ei ew of
        Inl e \<Rightarrow> Inl e
      | Inr x2 \<Rightarrow> Inr (if training enc then dropout keep2 0.2 True (leaky_relu 0.2 x2)
                      else leaky_relu 0.2 x2)) \<and>
   dropout keep p True t =
     map (\<lambda>i. map (\<lambda>j. if keep i j then t ! i ! j / (1 - p) else 0) [0..<length (t ! i)])
       [0..<length t] \<and>
   training (GCNEncoder_init in_ch out_ch p1 p2 p3) = False \<and>
   training (set_training enc b) = b \<and>
   training (encoder (GAE_init enc)) = training enc \<and>
   training (encoder (Module_train mode ae)) = mode \<and>
   train_class fw n cls dl ae opt = epoch_loop fw cls dl [0..<n] (Module_train True ae, opt) \<and>
   training (encoder (fst (fst (snd (train_class fw n cls dl ae opt))))) = True"
proof -
  have "training (encoder (fst (fst (snd (train_class fw n cls dl ae opt))))) =
        training (encoder (fst (Module_train True ae, opt)))"
    unfolding train_class_def
    by (rule epoch_loop_training [of fw cls dl "[0..<n]" "(Module_train True ae, opt)"])
  then have "training (encoder (fst (fst (snd (train_class fw n cls dl ae opt))))) = True"
    by (simp add: Module_train_def)
  then show ?thesis
    by (simp add: forward_stage1_def forward_stage2_def dropout_def GCNEncoder_init_def
      set_training_def GAE_init_def Module_train_def train_class_def split: sum.splits)
qed

end
